theory Spec2Isabelle
  imports Main "HOL-Library.Word"
begin

section \<open>Data model\<close>

text \<open>
  An entity is a component store keyed by component type name. \<^verbatim>\<open>Entity.hpp\<close> is not
  among the sources; World.cpp uses \<^verbatim>\<open>add(name)\<close>, \<^verbatim>\<open>get(name)\<close> and iterates
  \<^verbatim>\<open>getComponents()\<close> as (name, component) pairs, so the store is an association list whose
  order is the iteration order of \<^verbatim>\<open>getComponents()\<close>.
\<close>

type_synonym 'c Entity = "(string \<times> 'c) list"

type_synonym script_ptr = nat
type_synonym world_ptr = nat

text \<open>
  The fields of \<^verbatim>\<open>World\<close> that World.cpp reads and writes: \<^verbatim>\<open>name\<close>, the vector
  \<^verbatim>\<open>entities\<close> and the map \<^verbatim>\<open>scripts\<close> from script file name to a non-owning
  \<^verbatim>\<open>Script*\<close>. The map is used through \<^verbatim>\<open>find\<close>, \<^verbatim>\<open>emplace\<close>, \<^verbatim>\<open>erase\<close> and
  iteration only; it is an association list with distinct keys, iterated in list order.
\<close>

record 'c World =
  name :: string
  entities :: "'c Entity list"
  scripts :: "(string \<times> script_ptr) list"

section \<open>World::removeEntity\<close>

text \<open>\<^verbatim>\<open>std::vector::erase(pos)\<close> at a valid position.\<close>

definition erase :: "nat \<Rightarrow> 'a list \<Rightarrow> 'a list" where
  "erase i xs = take i xs @ drop (Suc i) xs"

text \<open>
  \<^verbatim>\<open>bool World::removeEntity(int e)\<close>. The argument is a 32-bit \<^verbatim>\<open>int\<close>;
  \<^verbatim>\<open>static_cast<int>(entities.size())\<close> keeps the low 32 bits of the size, the sum
  \<^verbatim>\<open>size + e\<close> is computed in 32 bits, and \<^verbatim>\<open>||\<close> evaluates the sum only when the first
  test fails. The iterator arithmetic \<^verbatim>\<open>begin() + e\<close> and \<^verbatim>\<open>end() + e\<close> is pointer
  arithmetic and does not wrap.
\<close>

definition removeEntity :: "32 word \<Rightarrow> 'c World \<Rightarrow> bool \<times> 'c World" where
  "removeEntity e w =
     (let n = (word_of_nat (length (entities w)) :: 32 word)
      in if sint n \<le> sint e \<or> sint (n + e) < 0 then (False, w)
         else (True, w\<lparr>entities :=
                 erase (nat ((if 0 \<le> sint e then 0 else int (length (entities w))) + sint e))
                   (entities w)\<rparr>))"

section \<open>World::addEntity\<close>

text \<open>
  \<^verbatim>\<open>Entity* World::addEntity()\<close> appends a new, empty entity; the pointer it returns is the
  last element of the vector (the null branch needs \<^verbatim>\<open>emplace_back\<close> not to grow the vector).
\<close>

definition addEntity :: "'c World \<Rightarrow> 'c World" where
  "addEntity w = w\<lparr>entities := entities w @ [[]]\<rparr>"

section \<open>The callable registry (Selection.hpp)\<close>

text \<open>
  \<^verbatim>\<open>FunctionsMap\<close> is an \<^verbatim>\<open>unordered_map\<close> from name to an owned \<^verbatim>\<open>BaseCppFunction\<close>.
  The wrapper class lives in CppFunction.hpp, which is not among the sources; the wrapper
  built by \<^verbatim>\<open>new CppFunction<Ret, Args...>(state, name, f)\<close> is the pair of the name and the
  host callable.
\<close>

datatype 'f CppFunction = CppFunction string 'f

type_synonym 'f FunctionsMap = "string \<rightharpoonup> 'f CppFunction"

text \<open>
  \<^verbatim>\<open>emplace\<close> of the standard maps: the pair is inserted only when no element with the key
  exists; otherwise the container is left as it is and the new value is destroyed.
\<close>

definition emplace :: "('k \<rightharpoonup> 'v) \<Rightarrow> 'k \<Rightarrow> 'v \<Rightarrow> ('k \<rightharpoonup> 'v)" where
  "emplace m k v = (case m k of None \<Rightarrow> m(k \<mapsto> v) | Some old \<Rightarrow> m)"

record Selection =
  selName :: string
  selIndex :: int

text \<open>
  \<^verbatim>\<open>Selection::operator =(const std::function<Ret(Args...)>& f)\<close> and its function-pointer
  overload have the same body. \<^verbatim>\<open>functions\<close> is the registry the selection refers to.
\<close>

definition Selection_assign :: "Selection \<Rightarrow> 'f \<Rightarrow> 'f FunctionsMap \<Rightarrow> 'f FunctionsMap" where
  "Selection_assign sel f functions = emplace functions (selName sel) (CppFunction (selName sel) f)"

section \<open>Script instances\<close>

text \<open>
  The members of \<^verbatim>\<open>Script\<close> declared in Script.hpp that World.cpp depends on: the
  interpreter state, \<^verbatim>\<open>deleteMe\<close> and the \<^verbatim>\<open>World*\<close> back-reference (\<^verbatim>\<open>nullptr\<close> is
  \<open>None\<close>). Scripts are owned by the asset manager; a world refers to them by address, and
  the script memory is a function from addresses to script objects.
\<close>

record 'l Script =
  luaState :: 'l
  deleteMe :: bool
  world :: "world_ptr option"

type_synonym 'l script_heap = "script_ptr \<Rightarrow> 'l Script"

text \<open>
  Modelled from the spec: the bodies of \<^verbatim>\<open>Script::setWorld\<close> (both overloads),
  \<^verbatim>\<open>Script::getWorld\<close>, \<^verbatim>\<open>Script::toDelete\<close> and \<^verbatim>\<open>Script::update\<close> are in Script.cpp,
  which is not among the sources. The setters and getters store and read the back-reference
  and the done flag; \<^verbatim>\<open>update\<close> runs the script's \<^verbatim>\<open>Update()\<close> in its own interpreter
  state against the entities of the world it is attached to and then reads the script
  global \<^verbatim>\<open>Done\<close> into the flag. The interpreter is a parameter: \<open>lua_Update\<close> runs
  \<^verbatim>\<open>Update()\<close>, \<open>lua_Done\<close> reads \<^verbatim>\<open>Done\<close>.
\<close>

definition setWorld :: "world_ptr option \<Rightarrow> 'l Script \<Rightarrow> 'l Script" where
  "setWorld p s = s\<lparr>world := p\<rparr>"

definition getWorld :: "'l Script \<Rightarrow> world_ptr option" where
  "getWorld s = world s"

definition toDelete :: "'l Script \<Rightarrow> bool" where
  "toDelete s = deleteMe s"

definition Script_update ::
  "('l \<Rightarrow> 'c Entity list \<Rightarrow> 'l \<times> 'c Entity list) \<Rightarrow> ('l \<Rightarrow> bool) \<Rightarrow>
   'l Script \<Rightarrow> 'c Entity list \<Rightarrow> 'l Script \<times> 'c Entity list" where
  "Script_update lua_Update lua_Done s es =
     (case lua_Update (luaState s) es of
        (l, es') \<Rightarrow> (s\<lparr>luaState := l, deleteMe := lua_Done l\<rparr>, es'))"

section \<open>Faults and the asset manager\<close>

text \<open>
  What the C++ leaves undefined is a fault: \<^verbatim>\<open>std::string\<close> built from the null pointer
  that \<^verbatim>\<open>GetText()\<close> returns for an element without text, a call through the null
  pointer that \<^verbatim>\<open>get\<close> returns for a component the entity does not have, and the use of
  \<^verbatim>\<open>find(n)->second\<close> for a key that a map of the asset manager does not hold.
\<close>

datatype fault = NullString | NullComponent | InvalidReference

text \<open>
  The two maps of \<^verbatim>\<open>AssetManager\<close> that World.cpp reaches: \<^verbatim>\<open>textures\<close> and \<^verbatim>\<open>scripts\<close>.
  \<^verbatim>\<open>loadResource\<close> enters a file under its path and erases the entry again when loading
  fails, so a map holds the files that loaded. A texture is referred to by the key it is
  held under. The scripts themselves live in the script memory; the map gives the address
  of the script held under a name (the field is \<open>scriptsHeld\<close>, since \<open>scripts\<close> is the
  mapping of the world).
\<close>

record AssetManager =
  textures :: "string set"
  scriptsHeld :: "string \<rightharpoonup> script_ptr"

text \<open>\<^verbatim>\<open>AssetManager::getTexture\<close> and \<^verbatim>\<open>AssetManager::getScript\<close>: both return
  \<^verbatim>\<open>find(n)->second\<close> without a check.\<close>

definition getTexture :: "AssetManager \<Rightarrow> string \<Rightarrow> fault + string" where
  "getTexture assets n = (if n \<in> textures assets then Inr n else Inl InvalidReference)"

definition getScript :: "AssetManager \<Rightarrow> string \<Rightarrow> fault + script_ptr" where
  "getScript assets n =
     (case scriptsHeld assets n of None \<Rightarrow> Inl InvalidReference | Some p \<Rightarrow> Inr p)"

section \<open>World::addScript and World::removeScript\<close>

text \<open>
  \<^verbatim>\<open>bool World::addScript(const std::string& scriptFile)\<close>. \<open>this\<close> is the address of the
  world, \<open>assets\<close> the asset manager the world refers to, \<open>h\<close> the script memory. The
  source calls \<^verbatim>\<open>assets.getScript(scriptFile)\<close> twice, for the pointer it stores and for the
  script it attaches.
\<close>

definition addScript ::
  "world_ptr \<Rightarrow> AssetManager \<Rightarrow> string \<Rightarrow> 'c World \<Rightarrow> 'l script_heap \<Rightarrow>
   fault + (bool \<times> 'c World \<times> 'l script_heap)" where
  "addScript this assets scriptFile w h =
     (if map_of (scripts w) scriptFile = None
      then (case getScript assets scriptFile of
              Inl f \<Rightarrow> Inl f
            | Inr p \<Rightarrow>
                (case getScript assets scriptFile of
                   Inl f \<Rightarrow> Inl f
                 | Inr q \<Rightarrow>
                     Inr (True,
                          w\<lparr>scripts := scripts w @ [(scriptFile, p)]\<rparr>,
                          h(q := setWorld (Some this) (h q)))))
      else Inr (False, w, h))"

text \<open>\<^verbatim>\<open>bool World::removeScript(const std::string& scriptFile)\<close>: it erases the key and does
  nothing else.\<close>

definition removeScript :: "string \<Rightarrow> 'c World \<Rightarrow> bool \<times> 'c World" where
  "removeScript scriptFile w =
     (if map_of (scripts w) scriptFile \<noteq> None
      then (True, w\<lparr>scripts := filter (\<lambda>kv. fst kv \<noteq> scriptFile) (scripts w)\<rparr>)
      else (False, w))"

section \<open>World::update and TestWorld::update\<close>

text \<open>
  The three systems are members of the world; their \<^verbatim>\<open>update(Entity&, float)\<close> bodies are
  not among the sources. Modelled from the spec: each system is a function of the time step
  and of the one entity it is handed (``stateless between entities''). The time step is
  only passed on, so its type is a parameter.

  The first loop of \<^verbatim>\<open>World::update\<close>: for each entity in order, the movement, the physical
  and the draw system, in this order.
\<close>

fun update_entities ::
  "('t \<Rightarrow> 'e \<Rightarrow> 'e) \<Rightarrow> ('t \<Rightarrow> 'e \<Rightarrow> 'e) \<Rightarrow> ('t \<Rightarrow> 'e \<Rightarrow> 'e) \<Rightarrow> 't \<Rightarrow> 'e list \<Rightarrow> 'e list" where
  "update_entities moveSystem physicalSystem drawSystem dt [] = []"
| "update_entities moveSystem physicalSystem drawSystem dt (e # es) =
     (let e1 = moveSystem dt e;
          e2 = physicalSystem dt e1;
          e3 = drawSystem dt e2
      in e3 # update_entities moveSystem physicalSystem drawSystem dt es)"

text \<open>
  \<^verbatim>\<open>TestWorld::update\<close>: the same loop with a block guarded by \<^verbatim>\<open>e->has<Physical>()\<close>
  between the physical and the draw system. The world-bound clamping and the tile collision
  inside the block are commented out, so both branches leave the entity as it is.
\<close>

fun TestWorld_update ::
  "('t \<Rightarrow> 'e \<Rightarrow> 'e) \<Rightarrow> ('t \<Rightarrow> 'e \<Rightarrow> 'e) \<Rightarrow> ('t \<Rightarrow> 'e \<Rightarrow> 'e) \<Rightarrow> ('e \<Rightarrow> bool) \<Rightarrow>
   't \<Rightarrow> 'e list \<Rightarrow> 'e list" where
  "TestWorld_update moveSystem physicalSystem drawSystem has_Physical dt [] = []"
| "TestWorld_update moveSystem physicalSystem drawSystem has_Physical dt (e # es) =
     (let e1 = moveSystem dt e;
          e2 = physicalSystem dt e1;
          e2' = (if has_Physical e2 then e2 else e2);
          e3 = drawSystem dt e2'
      in e3 # TestWorld_update moveSystem physicalSystem drawSystem has_Physical dt es)"

text \<open>
  The second loop of \<^verbatim>\<open>World::update\<close>, over the script mapping. The state is the entities
  (a script acts on them through its world), the script memory and \<^verbatim>\<open>doneScripts\<close>.
\<close>

fun update_scripts ::
  "('l \<Rightarrow> 'c Entity list \<Rightarrow> 'l \<times> 'c Entity list) \<Rightarrow> ('l \<Rightarrow> bool) \<Rightarrow> world_ptr \<Rightarrow>
   (string \<times> script_ptr) list \<Rightarrow> 'c Entity list \<times> 'l script_heap \<times> string list \<Rightarrow>
   'c Entity list \<times> 'l script_heap \<times> string list" where
  "update_scripts lua_Update lua_Done this [] st = st"
| "update_scripts lua_Update lua_Done this ((f, p) # rest) (es, h, doneScripts) =
     (let h1 = (if getWorld (h p) \<noteq> Some this then h(p := setWorld (Some this) (h p)) else h)
      in case Script_update lua_Update lua_Done (h1 p) es of
           (s', es') \<Rightarrow>
             (let h2 = h1(p := s')
              in update_scripts lua_Update lua_Done this rest
                   (es', h2, if toDelete (h2 p) then doneScripts @ [f] else doneScripts)))"

text \<open>The third loop: \<^verbatim>\<open>removeScript\<close> for every collected name, its result dropped.\<close>

fun remove_done :: "string list \<Rightarrow> 'c World \<Rightarrow> 'c World" where
  "remove_done [] w = w"
| "remove_done (s # ss) w = remove_done ss (snd (removeScript s w))"

definition World_update ::
  "('t \<Rightarrow> 'c Entity \<Rightarrow> 'c Entity) \<Rightarrow> ('t \<Rightarrow> 'c Entity \<Rightarrow> 'c Entity) \<Rightarrow>
   ('t \<Rightarrow> 'c Entity \<Rightarrow> 'c Entity) \<Rightarrow>
   ('l \<Rightarrow> 'c Entity list \<Rightarrow> 'l \<times> 'c Entity list) \<Rightarrow> ('l \<Rightarrow> bool) \<Rightarrow>
   world_ptr \<Rightarrow> 't \<Rightarrow> 'c World \<Rightarrow> 'l script_heap \<Rightarrow> 'c World \<times> 'l script_heap" where
  "World_update moveSystem physicalSystem drawSystem lua_Update lua_Done this dt w h =
     (case update_scripts lua_Update lua_Done this (scripts w)
             (update_entities moveSystem physicalSystem drawSystem dt (entities w), h, []) of
        (es, h', doneScripts) \<Rightarrow> (remove_done doneScripts (w\<lparr>entities := es\<rparr>), h'))"

section \<open>Documents and files (tinyxml2)\<close>

text \<open>
  World.cpp builds and reads its save file through tinyxml2, which is a library outside
  the repository. A document is the list of its top-level nodes; an element has a name,
  attributes and child nodes. The operations below are the tinyxml2 calls World.cpp makes,
  on this tree.
\<close>

datatype xml_node =
    Element string "(string \<times> string) list" "xml_node list"
  | Text string
  | Misc string

fun is_element :: "xml_node \<Rightarrow> bool" where
  "is_element (Element n a cs) = True"
| "is_element x = False"

fun Value :: "xml_node \<Rightarrow> string" where
  "Value (Element n a cs) = n"
| "Value (Text t) = t"
| "Value (Misc m) = m"

fun children :: "xml_node \<Rightarrow> xml_node list" where
  "children (Element n a cs) = cs"
| "children x = []"

definition NewElement :: "string \<Rightarrow> xml_node" where
  "NewElement n = Element n [] []"

fun InsertEndChild :: "xml_node \<Rightarrow> xml_node \<Rightarrow> xml_node" where
  "InsertEndChild (Element n a cs) c = Element n a (cs @ [c])"
| "InsertEndChild x c = x"

fun DeleteChildren :: "xml_node \<Rightarrow> xml_node" where
  "DeleteChildren (Element n a cs) = Element n a []"
| "DeleteChildren x = x"

text \<open>\<^verbatim>\<open>SetText\<close> overwrites a leading text child and otherwise inserts one in front;
  \<^verbatim>\<open>GetText\<close> is the leading text child, or a null pointer.\<close>

fun SetText :: "string \<Rightarrow> xml_node \<Rightarrow> xml_node" where
  "SetText t (Element n a (Text old # cs)) = Element n a (Text t # cs)"
| "SetText t (Element n a cs) = Element n a (Text t # cs)"
| "SetText t x = x"

fun GetText :: "xml_node \<Rightarrow> string option" where
  "GetText (Element n a (Text t # cs)) = Some t"
| "GetText x = None"

text \<open>The elements reached by \<^verbatim>\<open>FirstChildElement()\<close> and then \<^verbatim>\<open>NextSiblingElement()\<close>
  until null, without and with a name.\<close>

definition child_elements :: "xml_node list \<Rightarrow> xml_node list" where
  "child_elements cs = filter is_element cs"

definition child_elements_named :: "string \<Rightarrow> xml_node list \<Rightarrow> xml_node list" where
  "child_elements_named n cs = filter (\<lambda>c. is_element c \<and> Value c = n) cs"

text \<open>
  \<^verbatim>\<open>FirstChildElement(name)\<close> returns a pointer into the document, through which the element
  is then changed in place. The result here is the element together with the nodes before
  and after it, so that the changed element can be put back where it was.
\<close>

fun FirstChildElement ::
  "string \<Rightarrow> xml_node list \<Rightarrow> (xml_node list \<times> xml_node \<times> xml_node list) option" where
  "FirstChildElement n [] = None"
| "FirstChildElement n (c # cs) =
     (if is_element c \<and> Value c = n then Some ([], c, cs)
      else (case FirstChildElement n cs of
              None \<Rightarrow> None
            | Some (pre, r, post) \<Rightarrow> Some (c # pre, r, post)))"

text \<open>
  A path of the file system holds no file, a file that cannot be opened, a file that is
  not a well-formed document, or a document; it can be written or not. \<^verbatim>\<open>LoadFile\<close> gives
  the document or an error code; \<^verbatim>\<open>SaveFile\<close> replaces the file by the document when the path
  can be written, and returns an error code otherwise.

  A file that holds a document holds the text tinyxml2 prints for the tree, and \<^verbatim>\<open>LoadFile\<close>
  parses that text. What the parser makes of the printed tree is modelled as far as the
  save file depends on it: an element or attribute name that is not a name for the parser
  (a letter, \<^verbatim>\<open>_\<close>, \<^verbatim>\<open>:\<close> or a byte from 128 on, followed by such characters, digits,
  \<^verbatim>\<open>.\<close> or \<^verbatim>\<open>-\<close>) is taken to fail parsing; text that is white space only is skipped,
  so the node is gone; in other text a carriage return, alone or next to a line feed,
  becomes one line feed. Escaping of \<^verbatim>\<open>&\<close>, \<^verbatim>\<open><\<close> and \<^verbatim>\<open>>\<close> is undone by the parser and
  is left out.
\<close>

definition is_space :: "char \<Rightarrow> bool" where
  "is_space c = (c \<in> {CHR '' '', CHR 0x09, CHR 0x0A, CHR 0x0B, CHR 0x0C, CHR 0x0D})"

definition is_name_start :: "char \<Rightarrow> bool" where
  "is_name_start c =
     (let k = (of_char c :: nat)
      in 128 \<le> k \<or> (65 \<le> k \<and> k \<le> 90) \<or> (97 \<le> k \<and> k \<le> 122) \<or>
         c = CHR '':'' \<or> c = CHR ''_'')"

definition is_name_char :: "char \<Rightarrow> bool" where
  "is_name_char c =
     (let k = (of_char c :: nat)
      in is_name_start c \<or> (48 \<le> k \<and> k \<le> 57) \<or> c = CHR ''.'' \<or> c = CHR ''-'')"

fun XML_name :: "string \<Rightarrow> bool" where
  "XML_name [] = False"
| "XML_name (c # cs) = (is_name_start c \<and> list_all is_name_char cs)"

fun normalize_newlines :: "string \<Rightarrow> string" where
  "normalize_newlines [] = []"
| "normalize_newlines (c # cs) =
     (if c = CHR 0x0D
      then (case cs of
              [] \<Rightarrow> [CHR 0x0A]
            | d # ds \<Rightarrow> CHR 0x0A # normalize_newlines (if d = CHR 0x0A then ds else cs))
      else if c = CHR 0x0A
      then (case cs of
              [] \<Rightarrow> [CHR 0x0A]
            | d # ds \<Rightarrow> CHR 0x0A # normalize_newlines (if d = CHR 0x0D then ds else cs))
      else c # normalize_newlines cs)"

fun blank_text :: "xml_node \<Rightarrow> bool" where
  "blank_text (Text t) = list_all is_space t"
| "blank_text x = False"

fun names_parse :: "xml_node \<Rightarrow> bool" where
  "names_parse (Element n a cs) =
     (XML_name n \<and> list_all (\<lambda>kv. XML_name (fst kv)) a \<and> list_all names_parse cs)"
| "names_parse x = True"

fun parsed :: "xml_node \<Rightarrow> xml_node" where
  "parsed (Element n a cs) = Element n a (map parsed (filter (\<lambda>c. \<not> blank_text c) cs))"
| "parsed (Text t) = Text (normalize_newlines t)"
| "parsed (Misc m) = Misc m"

definition parsed_document :: "xml_node list \<Rightarrow> xml_node list" where
  "parsed_document d = map parsed (filter (\<lambda>c. \<not> blank_text c) d)"

datatype file_content = NotFound | CannotOpen | Malformed | Document "xml_node list"

datatype XMLError =
    XML_SUCCESS
  | XML_ERROR_FILE_NOT_FOUND
  | XML_ERROR_FILE_COULD_NOT_BE_OPENED
  | XML_ERROR_PARSING

record FileSystem =
  content :: "string \<Rightarrow> file_content"
  writable :: "string \<Rightarrow> bool"

definition LoadFile :: "FileSystem \<Rightarrow> string \<Rightarrow> XMLError + xml_node list" where
  "LoadFile fs file =
     (case content fs file of
        NotFound \<Rightarrow> Inl XML_ERROR_FILE_NOT_FOUND
      | CannotOpen \<Rightarrow> Inl XML_ERROR_FILE_COULD_NOT_BE_OPENED
      | Malformed \<Rightarrow> Inl XML_ERROR_PARSING
      | Document d \<Rightarrow>
          (if list_all names_parse d then Inr (parsed_document d) else Inl XML_ERROR_PARSING))"

definition SaveFile :: "FileSystem \<Rightarrow> string \<Rightarrow> xml_node list \<Rightarrow> XMLError \<times> FileSystem" where
  "SaveFile fs file d =
     (if writable fs file
      then (XML_SUCCESS, fs\<lparr>content := (content fs)(file := Document d)\<rparr>)
      else (XML_ERROR_FILE_COULD_NOT_BE_OPENED, fs))"

section \<open>Components and the component store\<close>

text \<open>
  Modelled from the spec: the component classes and \<^verbatim>\<open>Entity\<close> (Component.hpp, Entity.hpp
  and their implementations) are not among the sources; Physical.hpp declares
  \<^verbatim>\<open>serialize()\<close> returning a \<^verbatim>\<open>std::map<std::string, std::string>\<close> and \<^verbatim>\<open>unserialize\<close>
  taking one. The component operations World.cpp calls are parameters: \<open>construct\<close> is the
  name-keyed constructor table behind \<^verbatim>\<open>Entity::add\<close> (\<open>None\<close> for a name it does not
  know), \<open>serialize\<close> lists the fields in the order the map is iterated, \<open>unserialize\<close>
  reads fields from a map, and \<open>setTexture\<close> is the fix-up
  \<^verbatim>\<open>sprite.setTexture(assets.getTexture(texture))\<close> of a Drawable: it binds the sprite to
  the texture the asset manager holds under the component's own texture name, and is
  applied only after \<^verbatim>\<open>getTexture\<close> has returned.
\<close>

record 'c Components =
  construct :: "string \<Rightarrow> 'c option"
  serialize :: "'c \<Rightarrow> (string \<times> string) list"
  unserialize :: "'c \<Rightarrow> (string \<rightharpoonup> string) \<Rightarrow> 'c"
  setTexture :: "'c \<Rightarrow> 'c"

text \<open>
  Modelled from the spec: \<^verbatim>\<open>Entity::add(name)\<close> constructs a component of the named type
  unless one of that name exists; \<^verbatim>\<open>Entity::get(name)\<close> is the component or a null pointer.
  \<open>Entity_put\<close> is a write through the pointer that \<^verbatim>\<open>get\<close> returned.
\<close>

definition Entity_add :: "'c Components \<Rightarrow> string \<Rightarrow> 'c Entity \<Rightarrow> 'c Entity" where
  "Entity_add ops n e =
     (case map_of e n of
        Some c \<Rightarrow> e
      | None \<Rightarrow> (case construct ops n of None \<Rightarrow> e | Some c \<Rightarrow> e @ [(n, c)]))"

definition Entity_get :: "string \<Rightarrow> 'c Entity \<Rightarrow> 'c option" where
  "Entity_get n e = map_of e n"

definition Entity_put :: "string \<Rightarrow> 'c \<Rightarrow> 'c Entity \<Rightarrow> 'c Entity" where
  "Entity_put n c e = map (\<lambda>kv. if fst kv = n then (n, c) else kv) e"

section \<open>World::save\<close>

definition save_file :: "'c World \<Rightarrow> string" where
  "save_file w = ''./data/saves/'' @ name w @ ''.world''"

text \<open>The three nested loops of \<^verbatim>\<open>World::save\<close>, innermost first.\<close>

definition variable_element :: "string \<times> string \<Rightarrow> xml_node" where
  "variable_element v = SetText (snd v) (NewElement (fst v))"

definition component_element :: "'c Components \<Rightarrow> string \<times> 'c \<Rightarrow> xml_node" where
  "component_element ops c =
     foldl (\<lambda>component v. InsertEndChild component (variable_element v))
       (NewElement (fst c)) (serialize ops (snd c))"

definition entity_element :: "'c Components \<Rightarrow> 'c Entity \<Rightarrow> xml_node" where
  "entity_element ops e =
     foldl (\<lambda>entity c. InsertEndChild entity (component_element ops c))
       (NewElement ''entity'') e"

definition insert_entities :: "'c Components \<Rightarrow> 'c Entity list \<Rightarrow> xml_node \<Rightarrow> xml_node" where
  "insert_entities ops es root =
     foldl (\<lambda>r e. InsertEndChild r (entity_element ops e)) root es"

text \<open>The document after the root was found or created, emptied and filled.\<close>

definition save_document :: "'c Components \<Rightarrow> 'c World \<Rightarrow> xml_node list \<Rightarrow> xml_node list" where
  "save_document ops w saveFile =
     (case FirstChildElement ''world'' saveFile of
        None \<Rightarrow> insert_entities ops (entities w) (NewElement ''world'') # saveFile
      | Some (pre, root, post) \<Rightarrow>
          pre @ insert_entities ops (entities w) (DeleteChildren root) # post)"

text \<open>
  \<^verbatim>\<open>bool World::save()\<close>. The result is the returned flag, the file system and the world.
  The value \<^verbatim>\<open>SaveFile\<close> returns is dropped, as in the source. Writing to the log is left
  out.
\<close>

definition save :: "'c Components \<Rightarrow> FileSystem \<Rightarrow> 'c World \<Rightarrow> bool \<times> FileSystem \<times> 'c World" where
  "save ops fs w =
     (case LoadFile fs (save_file w) of
        Inl err \<Rightarrow> (False, fs, w)
      | Inr saveFile \<Rightarrow>
          (True, snd (SaveFile fs (save_file w) (save_document ops w saveFile)), w))"

section \<open>World::load\<close>

text \<open>The innermost loop: the right operand of \<^verbatim>\<open>&&\<close> is evaluated only when the name is
  not empty.\<close>

fun read_variables ::
  "xml_node list \<Rightarrow> (string \<rightharpoonup> string) \<Rightarrow> fault + (string \<rightharpoonup> string)" where
  "read_variables [] variables = Inr variables"
| "read_variables (v # vs) variables =
     (if Value v \<noteq> []
      then (case GetText v of
              None \<Rightarrow> Inl NullString
            | Some t \<Rightarrow>
                read_variables vs (if t \<noteq> [] then emplace variables (Value v) t else variables))
      else read_variables vs variables)"

text \<open>
  The component loop. \<open>texture\<close> reads the \<^verbatim>\<open>texture\<close> member of a Drawable (the class is not
  among the sources), \<open>assets\<close> is the asset manager of the world. A Drawable is fixed up
  with the texture that \<^verbatim>\<open>assets.getTexture\<close> returns for its texture name.
\<close>

fun read_components ::
  "'c Components \<Rightarrow> ('c \<Rightarrow> string) \<Rightarrow> AssetManager \<Rightarrow> xml_node list \<Rightarrow> 'c Entity \<Rightarrow>
   fault + 'c Entity" where
  "read_components ops texture assets [] entity = Inr entity"
| "read_components ops texture assets (component # rest) entity =
     (let componentName = Value component;
          e1 = Entity_add ops componentName entity
      in case read_variables (child_elements (children component)) Map.empty of
           Inl f \<Rightarrow> Inl f
         | Inr variables \<Rightarrow>
             (case Entity_get componentName e1 of
                None \<Rightarrow> Inl NullComponent
              | Some c \<Rightarrow>
                  (let e2 = Entity_put componentName (unserialize ops c variables) e1
                   in if componentName = ''Drawable''
                      then (case Entity_get ''Drawable'' e2 of
                              None \<Rightarrow> Inl NullComponent
                            | Some d \<Rightarrow>
                                (case getTexture assets (texture d) of
                                   Inl f \<Rightarrow> Inl f
                                 | Inr t \<Rightarrow>
                                     read_components ops texture assets rest
                                       (Entity_put ''Drawable'' (setTexture ops d) e2)))
                      else read_components ops texture assets rest e2)))"

text \<open>The outer loop: \<^verbatim>\<open>addEntity()\<close>, then the components are read into the entity it
  returned, which is the last one of the vector.\<close>

fun read_entities ::
  "'c Components \<Rightarrow> ('c \<Rightarrow> string) \<Rightarrow> AssetManager \<Rightarrow> xml_node list \<Rightarrow> 'c World \<Rightarrow>
   fault + 'c World" where
  "read_entities ops texture assets [] w = Inr w"
| "read_entities ops texture assets (entityElement # rest) w =
     (let w1 = addEntity w
      in case read_components ops texture assets (child_elements (children entityElement))
                (last (entities w1)) of
           Inl f \<Rightarrow> Inl f
         | Inr entity \<Rightarrow>
             read_entities ops texture assets rest
               (w1\<lparr>entities := butlast (entities w1) @ [entity]\<rparr>))"

text \<open>\<^verbatim>\<open>bool World::load()\<close>: a fault, or the returned flag and the world.\<close>

definition load ::
  "'c Components \<Rightarrow> ('c \<Rightarrow> string) \<Rightarrow> AssetManager \<Rightarrow> FileSystem \<Rightarrow> 'c World \<Rightarrow>
   fault + (bool \<times> 'c World)" where
  "load ops texture assets fs w =
     (case LoadFile fs (save_file w) of
        Inl err \<Rightarrow> Inr (False, w)
      | Inr loadFile \<Rightarrow>
          (case FirstChildElement ''world'' loadFile of
             None \<Rightarrow> Inr (False, w)
           | Some (pre, worldRoot, post) \<Rightarrow>
               (case read_entities ops texture assets
                       (child_elements_named ''entity'' (children worldRoot)) w of
                  Inl f \<Rightarrow> Inl f
                | Inr w' \<Rightarrow> Inr (True, w'))))"

text \<open>The constructor \<^verbatim>\<open>World(name, size, assets)\<close>: no entities, no scripts.\<close>

definition World_new :: "string \<Rightarrow> 'c World" where
  "World_new n = \<lparr>name = n, entities = [], scripts = []\<rparr>"

text \<open>
  What \<^verbatim>\<open>load\<close> makes of the record that \<^verbatim>\<open>save\<close> wrote for one component: the newly
  constructed component of that name, after \<^verbatim>\<open>unserialize\<close> with the saved fields and, for a
  Drawable, the texture fix-up. It is used to state what the loops of \<^verbatim>\<open>load\<close> compute.
\<close>

definition reloaded :: "'c Components \<Rightarrow> string \<times> 'c \<Rightarrow> string \<times> 'c" where
  "reloaded ops nc =
     (case construct ops (fst nc) of
        None \<Rightarrow> nc
      | Some d \<Rightarrow>
          (fst nc,
           (if fst nc = ''Drawable'' then setTexture ops else id)
             (unserialize ops d (map_of (serialize ops (snd nc))))))"

text \<open>
  The conditions under which the component loop gets through the saved record of a
  component: no field name or value is empty, the name can be constructed, and a Drawable
  names a texture the asset manager holds. It is used to state what the loops compute.
\<close>

definition component_loads ::
  "'c Components \<Rightarrow> ('c \<Rightarrow> string) \<Rightarrow> AssetManager \<Rightarrow> string \<times> 'c \<Rightarrow> bool" where
  "component_loads ops texture assets nc =
     ((\<forall>kv \<in> set (serialize ops (snd nc)). fst kv \<noteq> [] \<and> snd kv \<noteq> []) \<and>
      (\<exists>d. construct ops (fst nc) = Some d \<and>
           (fst nc = ''Drawable'' \<longrightarrow>
              texture (unserialize ops d (map_of (serialize ops (snd nc)))) \<in> textures assets)))"

text \<open>
  Text that the parser hands back as it was written: not white space only, no carriage
  return, and no NUL, at which the \<^verbatim>\<open>c_str()\<close> that \<^verbatim>\<open>save\<close> passes on would end.
\<close>

definition plain_text :: "string \<Rightarrow> bool" where
  "plain_text v = (\<not> list_all is_space v \<and> CHR 0x0D \<notin> set v \<and> CHR 0x00 \<notin> set v)"

section \<open>World destructor\<close>

text \<open>
  \<^verbatim>\<open>World::~World()\<close> saves, sets the world of every script in the mapping to
  \<^verbatim>\<open>nullptr\<close> and deletes the entities. The world is gone afterwards; what remains is the
  file system and the script memory.
\<close>

fun detach_all :: "(string \<times> script_ptr) list \<Rightarrow> 'l script_heap \<Rightarrow> 'l script_heap" where
  "detach_all [] h = h"
| "detach_all ((f, p) # rest) h = detach_all rest (h(p := setWorld None (h p)))"

definition World_destructor ::
  "'c Components \<Rightarrow> FileSystem \<Rightarrow> 'c World \<Rightarrow> 'l script_heap \<Rightarrow> FileSystem \<times> 'l script_heap" where
  "World_destructor ops fs w h =
     (case save ops fs w of (ok, fs', w') \<Rightarrow> (fs', detach_all (scripts w') h))"

section \<open>Properties of World::removeEntity\<close>

text \<open>The cast of the size and the 32-bit sum are exact while the vector holds at most
  \<open>2 ^ 30\<close> entities.\<close>

lemma sint_size_cast:
  assumes "n \<le> (2::nat) ^ 30"
  shows "sint (word_of_nat n :: 32 word) = int n"
proof -
  have "int n \<le> 2 ^ 30" using assms by (metis of_nat_le_iff of_nat_numeral of_nat_power)
  then have a: "int n < 2 ^ 31" by simp
  have b: "signed_take_bit 31 (int n) = int n"
    using a by (simp add: signed_take_bit_int_eq_self)
  have "sint (word_of_nat n :: 32 word) = signed_take_bit 31 (int n)"
    using sint_sbintrunc' [of "int n", where 'a = 32] by simp
  then show ?thesis using b by simp
qed

lemma sint_size_plus:
  fixes e :: "32 word"
  assumes "n \<le> (2::nat) ^ 30" and "sint e < int n"
  shows "sint ((word_of_nat n :: 32 word) + e) = int n + sint e"
proof -
  have n: "int n \<le> 2 ^ 30" using assms(1) by (metis of_nat_le_iff of_nat_numeral of_nat_power)
  have lo: "- (2 ^ 31) \<le> sint e" using sint_ge [of e] by simp
  have "- (2 ^ 31) \<le> int n + sint e" using lo by simp
  moreover have "int n + sint e < 2 ^ 31" using n assms(2) by simp
  ultimately have "signed_take_bit 31 (int n + sint e) = int n + sint e"
    by (rule signed_take_bit_int_eq_self)
  then show ?thesis
    using sint_word_add [of "word_of_nat n :: 32 word" e] sint_size_cast [OF assms(1)] by simp
qed

lemma removeEntity_eq:
  fixes e :: "32 word" and w :: "'c World"
  assumes "length (entities w) \<le> 2 ^ 30"
  shows "removeEntity e w =
    (if int (length (entities w)) \<le> sint e \<or> int (length (entities w)) + sint e < 0
     then (False, w)
     else (True, w\<lparr>entities := erase (nat (if sint e < 0 then int (length (entities w)) + sint e else sint e)) (entities w)\<rparr>))"
proof (cases "int (length (entities w)) \<le> sint e")
  case True
  then show ?thesis
    by (simp add: removeEntity_def Let_def sint_size_cast [OF assms])
next
  case False
  then have lt: "sint e < int (length (entities w))" by simp
  show ?thesis
    using False
    by (simp add: removeEntity_def Let_def sint_size_cast [OF assms] sint_size_plus [OF assms lt])
qed

text \<open>
  Claim C9. For every \<^verbatim>\<open>int\<close> \<open>e\<close> (read as \<open>sint e\<close>), in a world of at most \<open>2 ^ 30\<close>
  entities: when \<open>e\<close> is at least the number of entities, or the number of entities plus
  \<open>e\<close> is negative, \<^verbatim>\<open>removeEntity\<close> returns false and the world is unchanged; otherwise it
  returns true and removes exactly the entity at index \<open>e\<close>, counted from the end when \<open>e\<close>
  is negative, so that the sequence is one shorter and the other entities keep their order.
\<close>

theorem removeEntity_spec:
  fixes e :: "32 word" and w :: "'c World"
  assumes "length (entities w) \<le> 2 ^ 30"
  shows "(int (length (entities w)) \<le> sint e \<or> int (length (entities w)) + sint e < 0
            \<longrightarrow> removeEntity e w = (False, w)) \<and>
         (\<not> (int (length (entities w)) \<le> sint e \<or> int (length (entities w)) + sint e < 0)
            \<longrightarrow> (\<exists>i. int i = (if sint e < 0 then int (length (entities w)) + sint e else sint e) \<and>
                     i < length (entities w) \<and>
                     removeEntity e w =
                       (True, w\<lparr>entities := take i (entities w) @ drop (Suc i) (entities w)\<rparr>) \<and>
                     Suc (length (entities (snd (removeEntity e w)))) = length (entities w)))"
proof (intro conjI impI)
  assume "int (length (entities w)) \<le> sint e \<or> int (length (entities w)) + sint e < 0"
  then show "removeEntity e w = (False, w)"
    by (simp add: removeEntity_eq [OF assms])
next
  assume c: "\<not> (int (length (entities w)) \<le> sint e \<or> int (length (entities w)) + sint e < 0)"
  define i where "i = nat (if sint e < 0 then int (length (entities w)) + sint e else sint e)"
  have i1: "int i = (if sint e < 0 then int (length (entities w)) + sint e else sint e)"
    using c by (simp add: i_def)
  have i2: "i < length (entities w)"
    using c i1 by (auto split: if_splits)
  have r: "removeEntity e w =
      (True, w\<lparr>entities := take i (entities w) @ drop (Suc i) (entities w)\<rparr>)"
    using c by (simp add: removeEntity_eq [OF assms] i_def erase_def)
  have "Suc (length (entities (snd (removeEntity e w)))) = length (entities w)"
    using i2 by (simp add: r)
  with i1 i2 r
  show "\<exists>i. int i = (if sint e < 0 then int (length (entities w)) + sint e else sint e) \<and>
                     i < length (entities w) \<and>
                     removeEntity e w =
                       (True, w\<lparr>entities := take i (entities w) @ drop (Suc i) (entities w)\<rparr>) \<and>
                     Suc (length (entities (snd (removeEntity e w)))) = length (entities w)"
    by blast
qed

text \<open>Claim C9 at a world of three entities: the last one removed by \<open>-1\<close>, and the two
  refused indices \<open>3\<close> and \<open>-4\<close>.\<close>

theorem removeEntity_spec_witness:
  "removeEntity (- 1) \<lparr>name = ''w'', entities = [[(''A'', 1::nat)], [], [(''B'', 2)]], scripts = []\<rparr>
     = (True, \<lparr>name = ''w'', entities = [[(''A'', 1::nat)], []], scripts = []\<rparr>) \<and>
   removeEntity 3 \<lparr>name = ''w'', entities = [[(''A'', 1::nat)], [], [(''B'', 2)]], scripts = []\<rparr>
     = (False, \<lparr>name = ''w'', entities = [[(''A'', 1::nat)], [], [(''B'', 2)]], scripts = []\<rparr>) \<and>
   removeEntity (- 4) \<lparr>name = ''w'', entities = [[(''A'', 1::nat)], [], [(''B'', 2)]], scripts = []\<rparr>
     = (False, \<lparr>name = ''w'', entities = [[(''A'', 1::nat)], [], [(''B'', 2)]], scripts = []\<rparr>)"
proof -
  let ?w = "\<lparr>name = ''w'', entities = [[(''A'', 1::nat)], [], [(''B'', 2)]], scripts = []\<rparr>"
  have h: "length (entities ?w) \<le> 2 ^ 30" by simp
  show ?thesis
    using removeEntity_spec [OF h, of "- 1"] removeEntity_spec [OF h, of 3]
      removeEntity_spec [OF h, of "- 4"]
    by (auto simp: nat_eq_iff)
qed

section \<open>Properties of the callable registry\<close>

text \<open>
  Claim C5 says that registering \<open>g\<close> under a name that already holds \<open>f\<close> replaces the
  entry. The code registers with \<^verbatim>\<open>emplace\<close>, which keeps the entry that is there: after
  \<open>f\<close> and then \<open>g\<close> were assigned to the same selection, starting from an empty registry,
  the name still yields the wrapper of \<open>f\<close>.
\<close>

theorem Selection_assign_keeps_first:
  "Selection_assign sel g (Selection_assign sel f Map.empty) (selName sel)
     = Some (CppFunction (selName sel) f)"
  by (simp add: Selection_assign_def emplace_def)

section \<open>Properties of the scheduler\<close>

lemma update_entities_map:
  "update_entities m p d dt es = map (\<lambda>e. d dt (p dt (m dt e))) es"
  by (induction es) simp_all

lemma TestWorld_update_map:
  "TestWorld_update m p d hp dt es = map (\<lambda>e. d dt (p dt (m dt e))) es"
  by (induction es) simp_all

text \<open>
  Claim C6. The entity loop of \<^verbatim>\<open>World::update\<close> and the loop of \<^verbatim>\<open>TestWorld::update\<close>
  both compute the movement pass over all entities, then the physical pass, then the
  draw-state pass: each pass maps its system over the sequence, so every entity is visited
  once and its result depends on that entity alone. Nothing happens between the physical
  and the draw pass of \<^verbatim>\<open>TestWorld::update\<close>: the clamping and collision block is a no-op.
  \<^verbatim>\<open>World::update\<close> hands the result of the three passes to the script loop.
\<close>

theorem scheduler_three_passes:
  "update_entities m p d dt es = map (d dt) (map (p dt) (map (m dt) es)) \<and>
   TestWorld_update m p d hp dt es = map (d dt) (map (p dt) (map (m dt) es)) \<and>
   World_update m p d lua_Update lua_Done this dt w h =
     (case update_scripts lua_Update lua_Done this (scripts w)
             (map (d dt) (map (p dt) (map (m dt) (entities w))), h, []) of
        (es', h', doneScripts) \<Rightarrow> (remove_done doneScripts (w\<lparr>entities := es'\<rparr>), h'))"
  by (simp add: update_entities_map TestWorld_update_map World_update_def comp_def)

section \<open>Properties of World::addScript\<close>

text \<open>
  Claim C10, amended. When the file name is in the script mapping, \<^verbatim>\<open>addScript\<close> returns
  false and the world and the script memory are as they were. When the name is not in the
  mapping and the asset manager holds a script under it, \<^verbatim>\<open>addScript\<close> returns true, the
  mapping gains the name (bound to that script, every other name as before), the script's
  current world is this world, and no other script is touched. It returns true only when
  the name was not in the mapping.
\<close>

theorem addScript_spec:
  "(map_of (scripts w) f \<noteq> None \<longrightarrow> addScript this assets f w h = Inr (False, w, h)) \<and>
   (\<forall>p. map_of (scripts w) f = None \<and> scriptsHeld assets f = Some p \<longrightarrow>
      (\<exists>w' h'. addScript this assets f w h = Inr (True, w', h') \<and>
         map_of (scripts w') f = Some p \<and>
         (\<forall>g. g \<noteq> f \<longrightarrow> map_of (scripts w') g = map_of (scripts w) g) \<and>
         getWorld (h' p) = Some this \<and>
         (\<forall>q. q \<noteq> p \<longrightarrow> h' q = h q) \<and>
         entities w' = entities w \<and> name w' = name w)) \<and>
   (\<forall>w' h'. addScript this assets f w h = Inr (True, w', h') \<longrightarrow> map_of (scripts w) f = None)"
  by (auto simp: addScript_def getScript_def getWorld_def setWorld_def map_add_def
      split: option.splits if_splits)

text \<open>Claim C10, amended, at a world that lists one script and an asset manager that holds
  two: a new name is added, the listed one is refused.\<close>

theorem addScript_spec_witness:
  "addScript 1 \<lparr>textures = {}, scriptsHeld = [''ab'' \<mapsto> 2, ''abc'' \<mapsto> 3]\<rparr> ''ab''
      \<lparr>name = ''w'', entities = ([] :: nat Entity list), scripts = [(''abc'', 3)]\<rparr>
      (\<lambda>p. \<lparr>luaState = (), deleteMe = False, world = None\<rparr>)
    = Inr (True,
       \<lparr>name = ''w'', entities = [], scripts = [(''abc'', 3), (''ab'', 2)]\<rparr>,
       (\<lambda>p. \<lparr>luaState = (), deleteMe = False, world = None\<rparr>)
         (2 := \<lparr>luaState = (), deleteMe = False, world = Some 1\<rparr>)) \<and>
   addScript 1 \<lparr>textures = {}, scriptsHeld = [''ab'' \<mapsto> 2, ''abc'' \<mapsto> 3]\<rparr> ''abc''
      \<lparr>name = ''w'', entities = ([] :: nat Entity list), scripts = [(''abc'', 3)]\<rparr>
      (\<lambda>p. \<lparr>luaState = (), deleteMe = False, world = None\<rparr>)
    = Inr (False,
       \<lparr>name = ''w'', entities = [], scripts = [(''abc'', 3)]\<rparr>,
       (\<lambda>p. \<lparr>luaState = (), deleteMe = False, world = None\<rparr>))"
proof -
  let ?a = "\<lparr>textures = {}, scriptsHeld = [''ab'' \<mapsto> 2, ''abc'' \<mapsto> (3::nat)]\<rparr>"
  let ?w = "\<lparr>name = ''w'', entities = ([] :: nat Entity list), scripts = [(''abc'', 3)]\<rparr>"
  let ?h = "\<lambda>p::nat. \<lparr>luaState = (), deleteMe = False, world = None :: nat option\<rparr>"
  have a: "map_of (scripts ?w) ''ab'' = None \<and> scriptsHeld ?a ''ab'' = Some 2" by simp
  have b: "map_of (scripts ?w) ''abc'' \<noteq> None" by simp
  from addScript_spec [of ?w "''abc''" 1 ?a ?h, THEN conjunct1, rule_format, OF b]
  have r2: "addScript 1 ?a ''abc'' ?w ?h = Inr (False, ?w, ?h)" .
  from addScript_spec [of ?w "''ab''" 1 ?a ?h, THEN conjunct2, THEN conjunct1, rule_format, OF a]
  obtain w' h' where r1: "addScript 1 ?a ''ab'' ?w ?h = Inr (True, w', h')" by blast
  have e: "addScript 1 ?a ''ab'' ?w ?h = Inr (True,
       \<lparr>name = ''w'', entities = [], scripts = [(''abc'', 3), (''ab'', 2)]\<rparr>,
       ?h(2 := \<lparr>luaState = (), deleteMe = False, world = Some 1\<rparr>))"
    using r1 by (simp add: addScript_def getScript_def setWorld_def)
  from e r2 show ?thesis by simp
qed

text \<open>
  Claim C10 as stated, for every file name, fails at a name that is not in the mapping and
  that the asset manager does not hold: \<^verbatim>\<open>getScript\<close> uses \<^verbatim>\<open>find(n)->second\<close> at the end of
  its map, and \<^verbatim>\<open>addScript\<close> neither returns true nor false.
\<close>

theorem addScript_unheld_counterexample:
  "map_of (scripts \<lparr>name = ''w'', entities = ([] :: nat Entity list), scripts = []\<rparr>) ''quest.lua'' = None \<and>
   addScript 1 \<lparr>textures = {}, scriptsHeld = Map.empty\<rparr> ''quest.lua''
      \<lparr>name = ''w'', entities = ([] :: nat Entity list), scripts = []\<rparr>
      (\<lambda>p. \<lparr>luaState = (), deleteMe = False, world = None\<rparr>)
    = Inl InvalidReference"
  by (simp add: addScript_def getScript_def)

section \<open>Properties of the script loop of World::update\<close>

text \<open>Running a script does not touch its back-reference, and the loop sets the
  back-reference of every script it visits to this world.\<close>

lemma Script_update_world:
  "Script_update U D s es = (s', es') \<Longrightarrow> world s' = world s \<and> deleteMe s' = D (luaState s')"
  by (auto simp: Script_update_def split: prod.splits)

lemma update_scripts_world_kept:
  "update_scripts U D this ss (es, h, dn) = (es', h', dn') \<Longrightarrow>
   getWorld (h p) = Some this \<Longrightarrow> getWorld (h' p) = Some this"
proof (induction ss arbitrary: es h dn)
  case Nil
  then show ?case by simp
next
  case (Cons a ss)
  obtain f q where a: "a = (f, q)" by (cases a)
  define h1 where "h1 = (if getWorld (h q) \<noteq> Some this then h(q := setWorld (Some this) (h q)) else h)"
  obtain s1 es1 where su: "Script_update U D (h1 q) es = (s1, es1)" by (cases "Script_update U D (h1 q) es")
  have w1: "getWorld (h1 p) = Some this"
    using Cons.prems(2) by (simp add: h1_def getWorld_def setWorld_def)
  have "world s1 = world (h1 q)" using Script_update_world [OF su] by simp
  then have w2: "getWorld ((h1(q := s1)) p) = Some this"
    using w1 by (auto simp: getWorld_def)
  have "update_scripts U D this ss
          (es1, h1(q := s1), if toDelete ((h1(q := s1)) q) then dn @ [f] else dn) = (es', h', dn')"
    using Cons.prems(1) su by (simp add: a h1_def Let_def)
  from Cons.IH [OF this w2] show ?case .
qed

lemma update_scripts_attached:
  "update_scripts U D this ss (es, h, dn) = (es', h', dn') \<Longrightarrow>
   (f, p) \<in> set ss \<Longrightarrow> getWorld (h' p) = Some this"
proof (induction ss arbitrary: es h dn)
  case Nil
  then show ?case by simp
next
  case (Cons a ss)
  obtain g q where a: "a = (g, q)" by (cases a)
  define h1 where "h1 = (if getWorld (h q) \<noteq> Some this then h(q := setWorld (Some this) (h q)) else h)"
  obtain s1 es1 where su: "Script_update U D (h1 q) es = (s1, es1)" by (cases "Script_update U D (h1 q) es")
  have w1: "getWorld (h1 q) = Some this"
    by (simp add: h1_def getWorld_def setWorld_def)
  have "world s1 = world (h1 q)" using Script_update_world [OF su] by simp
  then have w2: "getWorld ((h1(q := s1)) q) = Some this"
    using w1 by (simp add: getWorld_def)
  have step: "update_scripts U D this ss
          (es1, h1(q := s1), if toDelete ((h1(q := s1)) q) then dn @ [g] else dn) = (es', h', dn')"
    using Cons.prems(1) su by (simp add: a h1_def Let_def)
  show ?case
  proof (cases "(f, p) \<in> set ss")
    case True
    from Cons.IH [OF step True] show ?thesis .
  next
    case False
    then have "p = q" using Cons.prems(2) a by simp
    then show ?thesis using update_scripts_world_kept [OF step w2] by simp
  qed
qed

text \<open>A script whose flag reads true after the loop was collected in \<^verbatim>\<open>doneScripts\<close>, given
  that no two names of the mapping share a script.\<close>

lemma update_scripts_done_mono:
  "update_scripts U D this ss (es, h, dn) = (es', h', dn') \<Longrightarrow> set dn \<subseteq> set dn'"
proof (induction ss arbitrary: es h dn)
  case Nil
  then show ?case by simp
next
  case (Cons a ss)
  obtain g q where a: "a = (g, q)" by (cases a)
  define h1 where "h1 = (if getWorld (h q) \<noteq> Some this then h(q := setWorld (Some this) (h q)) else h)"
  obtain s1 es1 where su: "Script_update U D (h1 q) es = (s1, es1)" by (cases "Script_update U D (h1 q) es")
  have step: "update_scripts U D this ss
          (es1, h1(q := s1), if toDelete ((h1(q := s1)) q) then dn @ [g] else dn) = (es', h', dn')"
    using Cons.prems(1) su by (simp add: a h1_def Let_def)
  from Cons.IH [OF step] show ?case by (auto split: if_splits)
qed

lemma update_scripts_heap_other:
  "update_scripts U D this ss (es, h, dn) = (es', h', dn') \<Longrightarrow>
   p \<notin> snd ` set ss \<Longrightarrow> h' p = h p"
proof (induction ss arbitrary: es h dn)
  case Nil
  then show ?case by simp
next
  case (Cons a ss)
  obtain g q where a: "a = (g, q)" by (cases a)
  define h1 where "h1 = (if getWorld (h q) \<noteq> Some this then h(q := setWorld (Some this) (h q)) else h)"
  obtain s1 es1 where su: "Script_update U D (h1 q) es = (s1, es1)" by (cases "Script_update U D (h1 q) es")
  have step: "update_scripts U D this ss
          (es1, h1(q := s1), if toDelete ((h1(q := s1)) q) then dn @ [g] else dn) = (es', h', dn')"
    using Cons.prems(1) su by (simp add: a h1_def Let_def)
  have pq: "p \<noteq> q" and rest: "p \<notin> snd ` set ss" using Cons.prems(2) a by auto
  have "h' p = (h1(q := s1)) p" using Cons.IH [OF step rest] .
  then show ?case using pq by (simp add: h1_def)
qed

lemma update_scripts_done:
  "update_scripts U D this ss (es, h, dn) = (es', h', dn') \<Longrightarrow>
   distinct (map snd ss) \<Longrightarrow> (f, p) \<in> set ss \<Longrightarrow> toDelete (h' p) \<Longrightarrow> f \<in> set dn'"
proof (induction ss arbitrary: es h dn)
  case Nil
  then show ?case by simp
next
  case (Cons a ss)
  obtain g q where a: "a = (g, q)" by (cases a)
  define h1 where "h1 = (if getWorld (h q) \<noteq> Some this then h(q := setWorld (Some this) (h q)) else h)"
  obtain s1 es1 where su: "Script_update U D (h1 q) es = (s1, es1)" by (cases "Script_update U D (h1 q) es")
  have step: "update_scripts U D this ss
          (es1, h1(q := s1), if toDelete ((h1(q := s1)) q) then dn @ [g] else dn) = (es', h', dn')"
    using Cons.prems(1) su by (simp add: a h1_def Let_def)
  have d: "distinct (map snd ss)" and qn: "q \<notin> snd ` set ss" using Cons.prems(2) a by auto
  show ?case
  proof (cases "(f, p) \<in> set ss")
    case True
    from Cons.IH [OF step d True Cons.prems(4)] show ?thesis .
  next
    case False
    then have fp: "f = g" "p = q" using Cons.prems(3) a by auto
    have "h' q = (h1(q := s1)) q" using update_scripts_heap_other [OF step qn] .
    then have "toDelete ((h1(q := s1)) q)" using Cons.prems(4) fp by simp
    then have "g \<in> set (if toDelete ((h1(q := s1)) q) then dn @ [g] else dn)" by simp
    then show ?thesis using update_scripts_done_mono [OF step] fp by blast
  qed
qed

lemma removeScript_absent:
  "map_of (scripts w) f = None \<Longrightarrow> map_of (scripts (snd (removeScript s w))) f = None"
  by (auto simp: removeScript_def map_of_eq_None_iff)

lemma removeScript_removes:
  "map_of (scripts (snd (removeScript f w))) f = None"
  by (auto simp: removeScript_def map_of_eq_None_iff)

lemma remove_done_absent:
  "map_of (scripts w) f = None \<Longrightarrow> map_of (scripts (remove_done ss w)) f = None"
  by (induction ss arbitrary: w) (simp_all add: removeScript_absent)

lemma remove_done_removes:
  "f \<in> set ss \<Longrightarrow> map_of (scripts (remove_done ss w)) f = None"
proof (induction ss arbitrary: w)
  case Nil
  then show ?case by simp
next
  case (Cons s ss)
  show ?case
  proof (cases "f = s")
    case True
    then show ?thesis by (simp add: remove_done_absent removeScript_removes)
  next
    case False
    then show ?thesis using Cons by simp
  qed
qed

text \<open>
  Claim C2 says that a script whose done flag reads true during a tick is afterwards gone
  from the mapping and has a null current-world reference. The first half holds. The second
  fails: \<^verbatim>\<open>removeScript\<close> only erases the key, so the script still points to the world that
  dropped it. For every script \<open>p\<close> listed under \<open>f\<close> (no script listed twice) whose flag is set
  after the tick, \<open>f\<close> is no longer in the mapping and the current world of \<open>p\<close> is this world.
\<close>

theorem update_removes_done_script_attached:
  assumes "(f, p) \<in> set (scripts w)"
      and "distinct (map snd (scripts w))"
      and "World_update m ph d U D this dt w h = (w', h')"
      and "toDelete (h' p)"
  shows "map_of (scripts w') f = None \<and> getWorld (h' p) = Some this"
proof -
  obtain es1 dn where us: "update_scripts U D this (scripts w)
             (update_entities m ph d dt (entities w), h, []) = (es1, h', dn)"
    and w': "w' = remove_done dn (w\<lparr>entities := es1\<rparr>)"
    using assms(3) by (auto simp: World_update_def split: prod.splits)
  have "f \<in> set dn" using update_scripts_done [OF us assms(2) assms(1) assms(4)] .
  then have "map_of (scripts w') f = None" by (simp add: w' remove_done_removes)
  moreover have "getWorld (h' p) = Some this" using update_scripts_attached [OF us assms(1)] .
  ultimately show ?thesis by simp
qed

text \<open>Claim C2 at a world (address 1) with one script (address 7) whose \<^verbatim>\<open>Update()\<close> sets
  \<^verbatim>\<open>Done\<close>.\<close>

theorem update_removes_done_script_attached_witness:
  "map_of (scripts (fst (World_update (\<lambda>dt e. e) (\<lambda>dt e. e) (\<lambda>dt e. e) (\<lambda>l es. (True, es)) (\<lambda>l. l) 1 ()
      \<lparr>name = ''level'', entities = ([] :: nat Entity list), scripts = [(''quest.lua'', 7)]\<rparr>
      ((\<lambda>p. \<lparr>luaState = False, deleteMe = False, world = None\<rparr>)
         (7 := \<lparr>luaState = False, deleteMe = False, world = Some 1\<rparr>))))) ''quest.lua'' = None \<and>
   getWorld (snd (World_update (\<lambda>dt e. e) (\<lambda>dt e. e) (\<lambda>dt e. e) (\<lambda>l es. (True, es)) (\<lambda>l. l) 1 ()
      \<lparr>name = ''level'', entities = ([] :: nat Entity list), scripts = [(''quest.lua'', 7)]\<rparr>
      ((\<lambda>p. \<lparr>luaState = False, deleteMe = False, world = None\<rparr>)
         (7 := \<lparr>luaState = False, deleteMe = False, world = Some 1\<rparr>))) 7) = Some 1"
proof -
  let ?w = "\<lparr>name = ''level'', entities = ([] :: nat Entity list), scripts = [(''quest.lua'', 7)]\<rparr>"
  let ?h = "(\<lambda>p::nat. \<lparr>luaState = False, deleteMe = False, world = None :: nat option\<rparr>)
         (7 := \<lparr>luaState = False, deleteMe = False, world = Some 1\<rparr>)"
  let ?r = "World_update (\<lambda>dt e. e) (\<lambda>dt e. e) (\<lambda>dt e. e) (\<lambda>l es. (True, es)) (\<lambda>l. l) 1 () ?w ?h"
  have a: "(''quest.lua'', 7) \<in> set (scripts ?w)" by simp
  have b: "distinct (map snd (scripts ?w))" by simp
  have c: "?r = (fst ?r, snd ?r)" by simp
  have d: "toDelete (snd ?r 7)"
    by (simp add: World_update_def Script_update_def getWorld_def setWorld_def toDelete_def)
  show ?thesis
    by (rule update_removes_done_script_attached [OF a b c d])
qed

section \<open>Properties of the destructor\<close>

lemma save_world_unchanged: "snd (snd (save ops fs w)) = w"
  by (simp add: save_def split: sum.splits)

lemma World_destructor_heap: "snd (World_destructor ops fs w h) = detach_all (scripts w) h"
proof -
  obtain ok fs' w' where s: "save ops fs w = (ok, fs', w')" by (cases "save ops fs w") auto
  then have "w' = w" using save_world_unchanged [of ops fs w] by simp
  then show ?thesis by (simp add: World_destructor_def s)
qed

lemma detach_all_other: "p \<notin> snd ` set ss \<Longrightarrow> detach_all ss h p = h p"
  by (induction ss arbitrary: h) auto

lemma detach_all_kept: "getWorld (h p) = None \<Longrightarrow> getWorld (detach_all ss h p) = None"
  by (induction ss arbitrary: h) (auto simp: getWorld_def setWorld_def)

lemma detach_all_listed: "p \<in> snd ` set ss \<Longrightarrow> getWorld (detach_all ss h p) = None"
proof (induction ss arbitrary: h)
  case Nil
  then show ?case by simp
next
  case (Cons a ss)
  obtain f q where a: "a = (f, q)" by (cases a)
  show ?case
  proof (cases "p = q")
    case True
    have "getWorld ((h(q := setWorld None (h q))) p) = None"
      using True by (simp add: getWorld_def setWorld_def)
    then have "getWorld (detach_all ss (h(q := setWorld None (h q))) p) = None"
      by (rule detach_all_kept)
    then show ?thesis by (simp add: a)
  next
    case False
    then have "p \<in> snd ` set ss" using Cons.prems a by auto
    from Cons.IH [OF this] show ?thesis by (simp add: a)
  qed
qed

lemma World_destructor_detaches:
  "p \<in> snd ` set (scripts w) \<Longrightarrow> getWorld (snd (World_destructor ops fs w h) p) = None"
  by (simp add: World_destructor_heap detach_all_listed)

text \<open>
  Claim C7 says that a script's current world is always null or a world that lists the
  script. The destructor does detach every script the world still lists
  (\<open>World_destructor_detaches\<close>), but a script that a tick removed from the mapping keeps its
  pointer: in the state below, after the tick the mapping of world 1 is empty while script
  7 points to world 1, and after the destructor of world 1 it still does.
\<close>

theorem removed_script_keeps_destroyed_world:
  "getWorld (snd (World_update (\<lambda>dt e. e) (\<lambda>dt e. e) (\<lambda>dt e. e) (\<lambda>l es. (True, es)) (\<lambda>l. l) 1 ()
      \<lparr>name = ''level'', entities = ([] :: 'c Entity list), scripts = [(''quest.lua'', 7)]\<rparr>
      ((\<lambda>p. \<lparr>luaState = False, deleteMe = False, world = None\<rparr>)
         (7 := \<lparr>luaState = False, deleteMe = False, world = Some 1\<rparr>))) 7) = Some 1 \<and>
   scripts (fst (World_update (\<lambda>dt e. e) (\<lambda>dt e. e) (\<lambda>dt e. e) (\<lambda>l es. (True, es)) (\<lambda>l. l) 1 ()
      \<lparr>name = ''level'', entities = ([] :: 'c Entity list), scripts = [(''quest.lua'', 7)]\<rparr>
      ((\<lambda>p. \<lparr>luaState = False, deleteMe = False, world = None\<rparr>)
         (7 := \<lparr>luaState = False, deleteMe = False, world = Some 1\<rparr>)))) = [] \<and>
   getWorld (snd (World_destructor ops fs
      (fst (World_update (\<lambda>dt e. e) (\<lambda>dt e. e) (\<lambda>dt e. e) (\<lambda>l es. (True, es)) (\<lambda>l. l) 1 ()
         \<lparr>name = ''level'', entities = ([] :: 'c Entity list), scripts = [(''quest.lua'', 7)]\<rparr>
         ((\<lambda>p. \<lparr>luaState = False, deleteMe = False, world = None\<rparr>)
            (7 := \<lparr>luaState = False, deleteMe = False, world = Some 1\<rparr>))))
      (snd (World_update (\<lambda>dt e. e) (\<lambda>dt e. e) (\<lambda>dt e. e) (\<lambda>l es. (True, es)) (\<lambda>l. l) 1 ()
         \<lparr>name = ''level'', entities = ([] :: 'c Entity list), scripts = [(''quest.lua'', 7)]\<rparr>
         ((\<lambda>p. \<lparr>luaState = False, deleteMe = False, world = None\<rparr>)
            (7 := \<lparr>luaState = False, deleteMe = False, world = Some 1\<rparr>))))) 7) = Some 1"
  by (simp add: World_destructor_heap World_update_def Script_update_def getWorld_def
      setWorld_def toDelete_def removeScript_def)

section \<open>Properties of World::save\<close>

text \<open>The loops of \<^verbatim>\<open>save\<close> build one element per entity, holding one element per component,
  holding one element with a text child per field.\<close>

lemma foldl_InsertEndChild:
  "foldl (\<lambda>r x. InsertEndChild r (g x)) (Element n a cs) xs = Element n a (cs @ map g xs)"
  by (induction xs arbitrary: cs) simp_all

lemma variable_element_eq: "variable_element (k, v) = Element k [] [Text v]"
  by (simp add: variable_element_def NewElement_def)

lemma component_element_eq:
  "component_element ops (n, c) = Element n [] (map variable_element (serialize ops c))"
  by (simp add: component_element_def NewElement_def foldl_InsertEndChild)

lemma entity_element_eq:
  "entity_element ops e = Element ''entity'' [] (map (component_element ops) e)"
  by (simp add: entity_element_def NewElement_def foldl_InsertEndChild)

lemma insert_entities_eq:
  "insert_entities ops es (Element n a cs) = Element n a (cs @ map (entity_element ops) es)"
  by (simp add: insert_entities_def foldl_InsertEndChild)

text \<open>\<^verbatim>\<open>FirstChildElement\<close> splits the document at the first element of the name.\<close>

lemma FirstChildElement_Some:
  "FirstChildElement n doc = Some (pre, r, post) \<Longrightarrow>
   doc = pre @ r # post \<and> is_element r \<and> Value r = n \<and> FirstChildElement n pre = None"
proof (induction doc arbitrary: pre)
  case Nil
  then show ?case by simp
next
  case (Cons c cs)
  show ?case
  proof (cases "is_element c \<and> Value c = n")
    case True
    then show ?thesis using Cons.prems by auto
  next
    case False
    then obtain pre' where f: "FirstChildElement n cs = Some (pre', r, post)" and p: "pre = c # pre'"
      using Cons.prems by (auto split: option.splits)
    from Cons.IH [OF f] show ?thesis using False p by auto
  qed
qed

lemma FirstChildElement_found:
  "FirstChildElement n pre = None \<Longrightarrow> is_element r \<Longrightarrow> Value r = n \<Longrightarrow>
   FirstChildElement n (pre @ r # post) = Some (pre, r, post)"
  by (induction pre) (auto split: if_splits option.splits)

lemma element_named: "is_element r \<Longrightarrow> Value r = n \<Longrightarrow> \<exists>a cs. r = Element n a cs"
  by (cases r) auto

text \<open>
  Claim C8. When the document loaded from the save file has a \<^verbatim>\<open>world\<close> root, the document
  that \<^verbatim>\<open>save\<close> writes is the loaded one with the children of that root replaced by the
  entity records of the world, none of the old children kept (the nodes around the root and
  the root's attributes stay). When it has no such root, a new \<^verbatim>\<open>world\<close> element holding the
  entity records is put in front of the document. This document is what ends up in the file
  when the file can be written.
\<close>

theorem save_replaces_children_of_root:
  "(\<forall>pre root post. FirstChildElement ''world'' doc = Some (pre, root, post) \<longrightarrow>
      (\<exists>a old. root = Element ''world'' a old \<and> doc = pre @ root # post \<and>
         save_document ops w doc =
           pre @ Element ''world'' a (map (entity_element ops) (entities w)) # post)) \<and>
   (FirstChildElement ''world'' doc = None \<longrightarrow>
      save_document ops w doc =
        Element ''world'' [] (map (entity_element ops) (entities w)) # doc) \<and>
   (LoadFile fs (save_file w) = Inr doc \<and> writable fs (save_file w) \<longrightarrow>
      (\<exists>fs'. save ops fs w = (True, fs', w) \<and>
         content fs' (save_file w) = Document (save_document ops w doc)))"
proof (intro conjI allI impI)
  fix pre root post
  assume f: "FirstChildElement ''world'' doc = Some (pre, root, post)"
  from FirstChildElement_Some [OF f]
  have d: "doc = pre @ root # post" and e: "is_element root" "Value root = ''world''" by auto
  from element_named [OF e] obtain a old where r: "root = Element ''world'' a old" by blast
  have "save_document ops w doc =
      pre @ Element ''world'' a (map (entity_element ops) (entities w)) # post"
    by (simp add: save_document_def f r insert_entities_eq)
  with r d show "\<exists>a old. root = Element ''world'' a old \<and> doc = pre @ root # post \<and>
         save_document ops w doc =
           pre @ Element ''world'' a (map (entity_element ops) (entities w)) # post"
    by blast
next
  assume "FirstChildElement ''world'' doc = None"
  then show "save_document ops w doc =
        Element ''world'' [] (map (entity_element ops) (entities w)) # doc"
    by (simp add: save_document_def NewElement_def insert_entities_eq)
next
  assume "LoadFile fs (save_file w) = Inr doc \<and> writable fs (save_file w)"
  then show "\<exists>fs'. save ops fs w = (True, fs', w) \<and>
         content fs' (save_file w) = Document (save_document ops w doc)"
    by (simp add: save_def SaveFile_def)
qed

text \<open>Claim C8 at a document with a root that has an attribute and two old children, and at
  a document without a root.\<close>

theorem save_replaces_children_of_root_witness:
  "save_document \<lparr>construct = (\<lambda>n. if n = ''Name'' then Some [(''name'', ''?'')] else None),
              serialize = (\<lambda>c. c),
              unserialize = (\<lambda>c m. map (\<lambda>kv. (fst kv, case m (fst kv) of None \<Rightarrow> snd kv | Some v \<Rightarrow> v)) c),
              setTexture = (\<lambda>c. c)\<rparr>
     \<lparr>name = ''a'', entities = [[(''Name'', [(''name'', ''Lua Entity'')])], []], scripts = []\<rparr>
     [Misc ''decl'', Element ''world'' [(''v'', ''1'')] [Element ''entity'' [] [], Text ''old''], Misc ''tail'']
   = [Misc ''decl'',
      Element ''world'' [(''v'', ''1'')]
        [Element ''entity'' [] [Element ''Name'' [] [Element ''name'' [] [Text ''Lua Entity'']]],
         Element ''entity'' [] []],
      Misc ''tail''] \<and>
   save_document \<lparr>construct = (\<lambda>n. if n = ''Name'' then Some [(''name'', ''?'')] else None),
              serialize = (\<lambda>c. c),
              unserialize = (\<lambda>c m. map (\<lambda>kv. (fst kv, case m (fst kv) of None \<Rightarrow> snd kv | Some v \<Rightarrow> v)) c),
              setTexture = (\<lambda>c. c)\<rparr>
     \<lparr>name = ''a'', entities = [[(''Name'', [(''name'', ''Lua Entity'')])], []], scripts = []\<rparr>
     [Misc ''decl'']
   = [Element ''world'' []
        [Element ''entity'' [] [Element ''Name'' [] [Element ''name'' [] [Text ''Lua Entity'']]],
         Element ''entity'' [] []],
      Misc ''decl'']"
proof -
  let ?ops = "\<lparr>construct = (\<lambda>n. if n = ''Name'' then Some [(''name'', ''?'')] else None),
              serialize = (\<lambda>c. c),
              unserialize = (\<lambda>c m. map (\<lambda>kv. (fst kv, case m (fst kv) of None \<Rightarrow> snd kv | Some v \<Rightarrow> v)) c),
              setTexture = (\<lambda>c. c)\<rparr>"
  let ?w = "\<lparr>name = ''a'', entities = [[(''Name'', [(''name'', ''Lua Entity'')])], []], scripts = []\<rparr>"
  let ?doc = "[Misc ''decl'', Element ''world'' [(''v'', ''1'')] [Element ''entity'' [] [], Text ''old''], Misc ''tail'']"
  let ?fs = "\<lparr>content = (\<lambda>p. NotFound), writable = (\<lambda>p. True)\<rparr>"
  have f: "FirstChildElement ''world'' ?doc =
      Some ([Misc ''decl''],
            Element ''world'' [(''v'', ''1'')] [Element ''entity'' [] [], Text ''old''],
            [Misc ''tail''])"
    by simp
  have g: "FirstChildElement ''world'' [Misc ''decl''] = None" by simp
  from save_replaces_children_of_root [of ?doc ?ops ?w ?fs, THEN conjunct1, rule_format, OF f]
  have a: "save_document ?ops ?w ?doc =
      [Misc ''decl''] @ Element ''world'' [(''v'', ''1'')] (map (entity_element ?ops) (entities ?w))
        # [Misc ''tail'']"
    by auto
  from save_replaces_children_of_root [of "[Misc ''decl'']" ?ops ?w ?fs, THEN conjunct2,
      THEN conjunct1, rule_format, OF g]
  have b: "save_document ?ops ?w [Misc ''decl''] =
      Element ''world'' [] (map (entity_element ?ops) (entities ?w)) # [Misc ''decl'']" .
  show ?thesis
    unfolding a b
    by (simp add: entity_element_eq component_element_eq variable_element_eq)
qed

text \<open>
  Claim C3, amended. \<^verbatim>\<open>save\<close> returns false, and writes nothing, whenever the document at
  the destination cannot be loaded (no file, a file that cannot be opened, or one that is
  not well-formed); it returns true whenever the document loads and the file can be
  written; in every case the world it returns is the world it was given. \<open>save\<close> is a total
  function with no fault among its results: nothing in \<^verbatim>\<open>World::save\<close> raises.
\<close>

theorem save_reports_load_failure:
  "(\<forall>err. LoadFile fs (save_file w) = Inl err \<longrightarrow> save ops fs w = (False, fs, w)) \<and>
   (\<forall>doc. LoadFile fs (save_file w) = Inr doc \<and> writable fs (save_file w) \<longrightarrow>
      (\<exists>fs'. save ops fs w = (True, fs', w))) \<and>
   snd (snd (save ops fs w)) = w"
  by (auto simp: save_def split: sum.splits)

text \<open>Claim C3, amended, at a missing file and at a writable file that holds an empty
  document.\<close>

theorem save_reports_load_failure_witness:
  "save \<lparr>construct = (\<lambda>n. if n = ''Name'' then Some [(''name'', ''?'')] else None),
              serialize = (\<lambda>c. c),
              unserialize = (\<lambda>c m. map (\<lambda>kv. (fst kv, case m (fst kv) of None \<Rightarrow> snd kv | Some v \<Rightarrow> v)) c),
              setTexture = (\<lambda>c. c)\<rparr>
     \<lparr>content = (\<lambda>p. NotFound), writable = (\<lambda>p. True)\<rparr>
     \<lparr>name = ''a'', entities = [[(''Name'', [(''name'', ''Lua Entity'')])], []], scripts = []\<rparr>
   = (False, \<lparr>content = (\<lambda>p. NotFound), writable = (\<lambda>p. True)\<rparr>,
      \<lparr>name = ''a'', entities = [[(''Name'', [(''name'', ''Lua Entity'')])], []], scripts = []\<rparr>) \<and>
   (\<exists>fs'. save \<lparr>construct = (\<lambda>n. if n = ''Name'' then Some [(''name'', ''?'')] else None),
              serialize = (\<lambda>c. c),
              unserialize = (\<lambda>c m. map (\<lambda>kv. (fst kv, case m (fst kv) of None \<Rightarrow> snd kv | Some v \<Rightarrow> v)) c),
              setTexture = (\<lambda>c. c)\<rparr>
      \<lparr>content = (\<lambda>p. Document []), writable = (\<lambda>p. True)\<rparr>
      \<lparr>name = ''a'', entities = [[(''Name'', [(''name'', ''Lua Entity'')])], []], scripts = []\<rparr>
    = (True, fs', \<lparr>name = ''a'', entities = [[(''Name'', [(''name'', ''Lua Entity'')])], []], scripts = []\<rparr>))"
proof -
  let ?ops = "\<lparr>construct = (\<lambda>n. if n = ''Name'' then Some [(''name'', ''?'')] else None),
              serialize = (\<lambda>c. c),
              unserialize = (\<lambda>c m. map (\<lambda>kv. (fst kv, case m (fst kv) of None \<Rightarrow> snd kv | Some v \<Rightarrow> v)) c),
              setTexture = (\<lambda>c. c)\<rparr>"
  let ?w = "\<lparr>name = ''a'', entities = [[(''Name'', [(''name'', ''Lua Entity'')])], []], scripts = []\<rparr>"
  let ?fsN = "\<lparr>content = (\<lambda>p. NotFound), writable = (\<lambda>p. True)\<rparr>"
  let ?fsD = "\<lparr>content = (\<lambda>p. Document []), writable = (\<lambda>p. True)\<rparr>"
  have n: "LoadFile ?fsN (save_file ?w) = Inl XML_ERROR_FILE_NOT_FOUND"
    by (simp add: LoadFile_def)
  have d: "LoadFile ?fsD (save_file ?w) = Inr [] \<and> writable ?fsD (save_file ?w)"
    by (simp add: LoadFile_def parsed_document_def)
  from save_reports_load_failure [of ?fsN ?w ?ops, THEN conjunct1, rule_format, OF n]
  have a: "save ?ops ?fsN ?w = (False, ?fsN, ?w)" .
  from save_reports_load_failure [of ?fsD ?w ?ops, THEN conjunct2, THEN conjunct1, rule_format, OF d]
  have b: "\<exists>fs'. save ?ops ?fsD ?w = (True, fs', ?w)" .
  from a b show ?thesis by (rule conjI)
qed

text \<open>
  Claim C3 as stated fails in both directions: a file that can be opened and written but
  is not a well-formed document makes \<^verbatim>\<open>save\<close> return false, and a file that loads but
  cannot be written makes it return true.
\<close>

theorem save_reports_counterexample:
  "(content \<lparr>content = (\<lambda>p. Malformed), writable = (\<lambda>p. True)\<rparr>
       (save_file (World_new ''a'' :: unit World)) = Malformed \<and>
    writable \<lparr>content = (\<lambda>p. Malformed), writable = (\<lambda>p. True)\<rparr>
       (save_file (World_new ''a'' :: unit World)) \<and>
    fst (save \<lparr>construct = (\<lambda>n. None), serialize = (\<lambda>c. []), unserialize = (\<lambda>c m. c),
               setTexture = (\<lambda>c. c)\<rparr>
           \<lparr>content = (\<lambda>p. Malformed), writable = (\<lambda>p. True)\<rparr>
           (World_new ''a'' :: unit World)) = False) \<and>
   (\<not> writable \<lparr>content = (\<lambda>p. Document []), writable = (\<lambda>p. False)\<rparr>
       (save_file (World_new ''a'' :: unit World)) \<and>
    fst (save \<lparr>construct = (\<lambda>n. None), serialize = (\<lambda>c. []), unserialize = (\<lambda>c m. c),
               setTexture = (\<lambda>c. c)\<rparr>
           \<lparr>content = (\<lambda>p. Document []), writable = (\<lambda>p. False)\<rparr>
           (World_new ''a'' :: unit World)) = True)"
  by (simp add: save_def LoadFile_def)

section \<open>Properties of World::load\<close>

lemma variable_element_eq': "variable_element kv = Element (fst kv) [] [Text (snd kv)]"
  by (simp add: variable_element_def NewElement_def)

lemma child_elements_all: "\<forall>x \<in> set xs. is_element x \<Longrightarrow> child_elements xs = xs"
  by (simp add: child_elements_def)

lemma child_elements_named_all:
  "\<forall>x \<in> set xs. is_element x \<and> Value x = n \<Longrightarrow> child_elements_named n xs = xs"
  by (simp add: child_elements_named_def)

text \<open>Reading back the fields of a saved component gives the map of its serialized fields,
  when no field name and no value is empty.\<close>

lemma read_variables_saved:
  "\<forall>kv \<in> set kvs. fst kv \<noteq> [] \<and> snd kv \<noteq> [] \<Longrightarrow>
   read_variables (map variable_element kvs) variables =
     Inr (\<lambda>k. case variables k of Some x \<Rightarrow> Some x | None \<Rightarrow> map_of kvs k)"
proof (induction kvs arbitrary: variables)
  case Nil
  show ?case by (simp add: fun_eq_iff split: option.splits)
next
  case (Cons kv kvs)
  obtain k v where kv: "kv = (k, v)" by (cases kv)
  have ne: "k \<noteq> []" "v \<noteq> []" using Cons.prems kv by auto
  have rest: "\<forall>kv \<in> set kvs. fst kv \<noteq> [] \<and> snd kv \<noteq> []" using Cons.prems by simp
  have "read_variables (map variable_element (kv # kvs)) variables =
        read_variables (map variable_element kvs) (emplace variables k v)"
    using ne by (simp add: kv variable_element_eq)
  also have "\<dots> = Inr (\<lambda>x. case emplace variables k v x of Some y \<Rightarrow> Some y | None \<Rightarrow> map_of kvs x)"
    by (rule Cons.IH [OF rest])
  also have "(\<lambda>x. case emplace variables k v x of Some y \<Rightarrow> Some y | None \<Rightarrow> map_of kvs x) =
        (\<lambda>x. case variables x of Some y \<Rightarrow> Some y | None \<Rightarrow> map_of (kv # kvs) x)"
    by (auto simp: emplace_def kv fun_eq_iff split: option.splits)
  finally show ?case .
qed

lemma read_variables_component:
  assumes "\<forall>kv \<in> set (serialize ops c). fst kv \<noteq> [] \<and> snd kv \<noteq> []"
  shows "read_variables (child_elements (children (component_element ops (n, c)))) Map.empty =
           Inr (map_of (serialize ops c))"
proof -
  have "child_elements (children (component_element ops (n, c))) =
          map variable_element (serialize ops c)"
    by (simp add: component_element_eq child_elements_all variable_element_eq')
  then show ?thesis
    using read_variables_saved [OF assms, of Map.empty] by simp
qed

text \<open>One turn of the component loop on a saved component whose name the entity does not
  hold yet.\<close>

lemma map_of_append_new:
  "n \<notin> fst ` set acc \<Longrightarrow> map_of (acc @ [(n, d)]) n = Some d"
  by (induction acc) auto

lemma map_of_absent: "n \<notin> fst ` set acc \<Longrightarrow> map_of acc n = None"
  by (simp add: map_of_eq_None_iff)

lemma Entity_put_last:
  "n \<notin> fst ` set acc \<Longrightarrow> Entity_put n c (acc @ [(n, d)]) = acc @ [(n, c)]"
proof -
  assume a: "n \<notin> fst ` set acc"
  have "map (\<lambda>kv. if fst kv = n then (n, c) else kv) acc = acc"
    using a by (induction acc) auto
  then show ?thesis by (simp add: Entity_put_def)
qed

lemma read_component_step:
  assumes fresh: "n \<notin> fst ` set acc"
      and fields: "\<forall>kv \<in> set (serialize ops c). fst kv \<noteq> [] \<and> snd kv \<noteq> []"
      and con: "construct ops n = Some d"
      and tex: "n = ''Drawable'' \<Longrightarrow>
                  texture (unserialize ops d (map_of (serialize ops c))) \<in> textures assets"
  shows "read_components ops texture assets (component_element ops (n, c) # rest) acc =
         read_components ops texture assets rest
           (acc @ [(n, (if n = ''Drawable'' then setTexture ops else id)
                         (unserialize ops d (map_of (serialize ops c))))])"
proof -
  have v: "Value (component_element ops (n, c)) = n" by (simp add: component_element_eq)
  have add: "Entity_add ops n acc = acc @ [(n, d)]"
    by (simp add: Entity_add_def map_of_absent [OF fresh] con)
  have get: "Entity_get n (acc @ [(n, d)]) = Some d"
    using map_of_append_new [OF fresh] by (simp add: Entity_get_def)
  have put: "Entity_put n x (acc @ [(n, y)]) = acc @ [(n, x)]" for x y
    by (rule Entity_put_last [OF fresh])
  have get2: "Entity_get n (acc @ [(n, x)]) = Some x" for x
    using map_of_append_new [OF fresh] by (simp add: Entity_get_def)
  define u where "u = unserialize ops d (map_of (serialize ops c))"
  have unfolded: "read_components ops texture assets (component_element ops (n, c) # rest) acc =
        (if n = ''Drawable''
         then (case Entity_get ''Drawable'' (acc @ [(n, u)]) of
                 None \<Rightarrow> Inl NullComponent
               | Some x \<Rightarrow>
                   (case getTexture assets (texture x) of
                      Inl f \<Rightarrow> Inl f
                    | Inr t \<Rightarrow> read_components ops texture assets rest
                               (Entity_put ''Drawable'' (setTexture ops x) (acc @ [(n, u)]))))
         else read_components ops texture assets rest (acc @ [(n, u)]))"
    unfolding u_def
    by (simp only: read_components.simps Let_def v add read_variables_component [OF fields]
        get put sum.case option.case)
  show ?thesis
  proof (cases "n = ''Drawable''")
    case True
    have held: "getTexture assets (texture u) = Inr (texture u)"
      using tex [OF True] by (simp add: getTexture_def u_def)
    have a: "read_components ops texture assets (component_element ops (n, c) # rest) acc =
          read_components ops texture assets rest
            (Entity_put n (setTexture ops u) (acc @ [(n, u)]))"
      unfolding unfolded using True get2 [of u] held by simp
    have b: "Entity_put n (setTexture ops u) (acc @ [(n, u)]) = acc @ [(n, setTexture ops u)]"
      by (rule put)
    show ?thesis unfolding a b using True by (simp add: u_def)
  next
    case False
    show ?thesis unfolding unfolded using False by (simp add: u_def)
  qed
qed

lemma read_components_saved:
  assumes "distinct (map fst acc @ map fst e)"
      and "\<forall>nc \<in> set e. component_loads ops texture assets nc"
  shows "read_components ops texture assets (map (component_element ops) e) acc =
           Inr (acc @ map (reloaded ops) e)"
  using assms
proof (induction e arbitrary: acc)
  case Nil
  then show ?case by simp
next
  case (Cons nc e)
  obtain n c where nc: "nc = (n, c)" by (cases nc)
  have fresh: "n \<notin> fst ` set acc" using Cons.prems(1) nc by auto
  have cl: "component_loads ops texture assets (n, c)" using Cons.prems(2) nc by simp
  have fields: "\<forall>kv \<in> set (serialize ops c). fst kv \<noteq> [] \<and> snd kv \<noteq> []"
    using cl by (simp add: component_loads_def)
  obtain d where con: "construct ops n = Some d"
    and tex: "n = ''Drawable'' \<Longrightarrow>
                texture (unserialize ops d (map_of (serialize ops c))) \<in> textures assets"
    using cl by (auto simp: component_loads_def)
  define x where "x = (if n = ''Drawable'' then setTexture ops else id)
                         (unserialize ops d (map_of (serialize ops c)))"
  have r: "reloaded ops nc = (n, x)" by (simp add: reloaded_def nc con x_def)
  have d': "distinct (map fst (acc @ [(n, x)]) @ map fst e)"
    using Cons.prems(1) nc by auto
  have rest: "\<forall>nc \<in> set e. component_loads ops texture assets nc"
    using Cons.prems(2) by simp
  have "read_components ops texture assets (map (component_element ops) (nc # e)) acc =
        read_components ops texture assets (map (component_element ops) e) (acc @ [(n, x)])"
    using read_component_step [where texture = texture and assets = assets
        and rest = "map (component_element ops) e", OF fresh fields con tex]
    by (simp add: nc x_def)
  also have "\<dots> = Inr ((acc @ [(n, x)]) @ map (reloaded ops) e)"
    by (rule Cons.IH [OF d' rest])
  finally show ?case by (simp add: r)
qed

lemma is_element_component: "is_element (component_element ops nc)"
  by (cases nc) (simp add: component_element_eq)

lemma read_entities_saved:
  assumes "\<forall>e \<in> set es. distinct (map fst e) \<and>
             (\<forall>nc \<in> set e. component_loads ops texture assets nc)"
  shows "read_entities ops texture assets (map (entity_element ops) es) w =
           Inr (w\<lparr>entities := entities w @ map (map (reloaded ops)) es\<rparr>)"
  using assms
proof (induction es arbitrary: w)
  case Nil
  then show ?case by simp
next
  case (Cons e es)
  have d: "distinct (map fst [] @ map fst e)" using Cons.prems by simp
  have c: "\<forall>nc \<in> set e. component_loads ops texture assets nc"
    using Cons.prems by simp
  have ce: "child_elements (children (entity_element ops e)) = map (component_element ops) e"
    by (simp add: entity_element_eq child_elements_all is_element_component)
  have rc: "read_components ops texture assets (map (component_element ops) e) [] =
      Inr (map (reloaded ops) e)"
    using read_components_saved [OF d c] by simp
  have rest: "\<forall>e \<in> set es. distinct (map fst e) \<and>
             (\<forall>nc \<in> set e. component_loads ops texture assets nc)"
    using Cons.prems by simp
  have "read_entities ops texture assets (map (entity_element ops) (e # es)) w =
        read_entities ops texture assets (map (entity_element ops) es)
          (w\<lparr>entities := entities w @ [map (reloaded ops) e]\<rparr>)"
    by (simp add: addEntity_def ce rc)
  also have "\<dots> = Inr (w\<lparr>entities := entities w @ [map (reloaded ops) e],
                           entities := (entities w @ [map (reloaded ops) e]) @ map (map (reloaded ops)) es\<rparr>)"
    using Cons.IH [OF rest, of "w\<lparr>entities := entities w @ [map (reloaded ops) e]\<rparr>"] by simp
  finally show ?case by simp
qed

text \<open>A document whose \<^verbatim>\<open>world\<close> root holds the entity records of a world loads as that
  world's entities, appended.\<close>

lemma load_entity_records:
  assumes doc: "LoadFile fs (save_file w0) = Inr d"
      and root: "FirstChildElement ''world'' d =
                   Some (pre, Element ''world'' a (map (entity_element ops) es), post)"
      and ok: "\<forall>e \<in> set es. distinct (map fst e) \<and>
                 (\<forall>nc \<in> set e. component_loads ops texture assets nc)"
  shows "load ops texture assets fs w0 =
           Inr (True, w0\<lparr>entities := entities w0 @ map (map (reloaded ops)) es\<rparr>)"
proof -
  have named: "child_elements_named ''entity'' (map (entity_element ops) es) =
      map (entity_element ops) es"
    by (rule child_elements_named_all) (simp add: entity_element_eq)
  show ?thesis
    by (simp add: load_def doc root named read_entities_saved [OF ok])
qed

section \<open>What the parser makes of a saved document\<close>

lemma normalize_newlines_id: "CHR 0x0D \<notin> set t \<Longrightarrow> normalize_newlines t = t"
proof (induction t)
  case Nil
  then show ?case by simp
next
  case (Cons c cs)
  have c: "c \<noteq> CHR 0x0D" and cs: "CHR 0x0D \<notin> set cs" using Cons.prems by auto
  have ih: "normalize_newlines cs = cs" using Cons.IH cs by simp
  show ?case
  proof (cases cs)
    case Nil
    then show ?thesis using c by simp
  next
    case (Cons d ds)
    then have "d \<noteq> CHR 0x0D" using cs by auto
    then show ?thesis using c ih Cons by simp
  qed
qed

lemma XML_name_nonempty: "XML_name n \<Longrightarrow> n \<noteq> []"
  by (cases n) simp_all

lemma plain_text_nonempty: "plain_text v \<Longrightarrow> v \<noteq> []"
  by (cases v) (simp_all add: plain_text_def)

lemma parsed_variable:
  "plain_text (snd kv) \<Longrightarrow> parsed (variable_element kv) = variable_element kv"
  by (simp add: variable_element_eq' plain_text_def normalize_newlines_id)

lemma not_blank_element: "is_element x \<Longrightarrow> \<not> blank_text x"
  by (cases x) simp_all

lemma parsed_component:
  assumes "\<forall>kv \<in> set (serialize ops (snd nc)). plain_text (snd kv)"
  shows "parsed (component_element ops nc) = component_element ops nc"
proof -
  obtain n c where nc: "nc = (n, c)" by (cases nc)
  have keep: "filter (\<lambda>x. \<not> blank_text x) (map variable_element (serialize ops c)) =
      map variable_element (serialize ops c)"
    by (simp add: filter_id_conv variable_element_eq')
  have same: "map parsed (map variable_element (serialize ops c)) =
      map variable_element (serialize ops c)"
    using assms by (simp add: nc parsed_variable)
  show ?thesis by (simp add: nc component_element_eq keep same del: map_map)
qed

lemma parsed_entity:
  assumes "\<forall>nc \<in> set e. \<forall>kv \<in> set (serialize ops (snd nc)). plain_text (snd kv)"
  shows "parsed (entity_element ops e) = entity_element ops e"
proof -
  have keep: "filter (\<lambda>x. \<not> blank_text x) (map (component_element ops) e) =
      map (component_element ops) e"
    by (simp add: filter_id_conv not_blank_element is_element_component)
  have same: "map parsed (map (component_element ops) e) = map (component_element ops) e"
    using assms by (simp add: parsed_component)
  show ?thesis by (simp add: entity_element_eq keep same del: map_map)
qed

lemma parsed_entities:
  assumes "\<forall>e \<in> set es. \<forall>nc \<in> set e. \<forall>kv \<in> set (serialize ops (snd nc)). plain_text (snd kv)"
  shows "parsed_document (map (entity_element ops) es) = map (entity_element ops) es"
proof -
  have keep: "filter (\<lambda>x. \<not> blank_text x) (map (entity_element ops) es) =
      map (entity_element ops) es"
    by (simp add: filter_id_conv entity_element_eq)
  have same: "map parsed (map (entity_element ops) es) = map (entity_element ops) es"
    using assms by (simp add: parsed_entity)
  show ?thesis unfolding parsed_document_def keep same ..
qed

lemma names_parse_entity:
  assumes "\<forall>nc \<in> set e. XML_name (fst nc) \<and>
             (\<forall>kv \<in> set (serialize ops (snd nc)). XML_name (fst kv))"
  shows "names_parse (entity_element ops e)"
proof -
  have "names_parse (component_element ops nc)" if "nc \<in> set e" for nc
  proof -
    obtain n c where nc: "nc = (n, c)" by (cases nc)
    show ?thesis
      using assms that
      by (auto simp: nc component_element_eq variable_element_eq' list_all_iff)
  qed
  then show ?thesis
    by (simp add: entity_element_eq list_all_iff is_name_start_def is_name_char_def)
qed

text \<open>What \<^verbatim>\<open>LoadFile\<close> returns has names that parse, so it can be printed and parsed
  again.\<close>

lemma names_parse_parsed: "names_parse x \<Longrightarrow> names_parse (parsed x)"
  by (induction x) (auto simp: list_all_iff)

lemma names_parse_loaded:
  assumes "LoadFile fs file = Inr doc"
  shows "list_all names_parse doc"
proof -
  obtain d where d: "list_all names_parse d" and doc: "doc = parsed_document d"
    using assms by (auto simp: LoadFile_def split: file_content.splits if_splits)
  show ?thesis
    using d by (auto simp: doc parsed_document_def list_all_iff names_parse_parsed)
qed

lemma parsed_is_element: "is_element (parsed x) = is_element x"
  by (cases x) simp_all

lemma parsed_Value: "is_element x \<Longrightarrow> Value (parsed x) = Value x"
  by (cases x) simp_all

lemma FirstChildElement_parsed_None:
  "FirstChildElement n pre = None \<Longrightarrow> FirstChildElement n (parsed_document pre) = None"
proof (induction pre)
  case Nil
  then show ?case by (simp add: parsed_document_def)
next
  case (Cons c cs)
  have c: "\<not> (is_element c \<and> Value c = n)" and cs: "FirstChildElement n cs = None"
    using Cons.prems by (auto split: if_splits option.splits)
  have ih: "FirstChildElement n (parsed_document cs) = None" using Cons.IH [OF cs] .
  have pc: "\<not> (is_element (parsed c) \<and> Value (parsed c) = n)"
    using c by (auto simp: parsed_is_element parsed_Value)
  show ?case
    using ih pc by (auto simp: parsed_document_def)
qed

lemma parsed_document_split:
  "\<not> blank_text x \<Longrightarrow>
   parsed_document (pre @ x # post) = parsed_document pre @ parsed x # parsed_document post"
  by (simp add: parsed_document_def)

text \<open>The document that \<^verbatim>\<open>save\<close> wrote, read again: it parses, and its \<^verbatim>\<open>world\<close> root holds
  the entity records.\<close>

lemma saved_document_read:
  assumes loaded: "list_all names_parse doc"
      and names: "\<forall>e \<in> set (entities w). \<forall>nc \<in> set e. XML_name (fst nc) \<and>
                    (\<forall>kv \<in> set (serialize ops (snd nc)). XML_name (fst kv))"
      and texts: "\<forall>e \<in> set (entities w). \<forall>nc \<in> set e.
                    \<forall>kv \<in> set (serialize ops (snd nc)). plain_text (snd kv)"
  shows "list_all names_parse (save_document ops w doc) \<and>
         (\<exists>pre a post. FirstChildElement ''world'' (parsed_document (save_document ops w doc)) =
            Some (pre, Element ''world'' a (map (entity_element ops) (entities w)), post))"
proof -
  let ?recs = "map (entity_element ops) (entities w)"
  have recs_ok: "list_all names_parse ?recs"
    using names by (simp add: list_all_iff names_parse_entity)
  have "parsed_document ?recs = ?recs"
    using texts by (rule parsed_entities)
  then have recs_same: "map parsed (filter (\<lambda>c. \<not> blank_text c) ?recs) = ?recs"
    by (simp only: parsed_document_def)
  have world: "XML_name ''world''" by (simp add: is_name_start_def is_name_char_def)
  show ?thesis
  proof (cases "FirstChildElement ''world'' doc")
    case None
    have sd: "save_document ops w doc = Element ''world'' [] ?recs # doc"
      using None by (simp add: save_document_def NewElement_def insert_entities_eq)
    have p: "parsed (Element ''world'' [] ?recs) = Element ''world'' [] ?recs"
      by (simp only: parsed.simps recs_same)
    have pe: "parsed_document [] = []" by (simp add: parsed_document_def)
    have "parsed_document ([] @ Element ''world'' [] ?recs # doc) =
        parsed_document [] @ parsed (Element ''world'' [] ?recs) # parsed_document doc"
      by (rule parsed_document_split) simp
    then have "parsed_document (save_document ops w doc) =
        Element ''world'' [] ?recs # parsed_document doc"
      by (simp only: sd p pe append_Nil)
    then have "FirstChildElement ''world'' (parsed_document (save_document ops w doc)) =
        Some ([], Element ''world'' [] ?recs, parsed_document doc)"
      by simp
    moreover have "list_all names_parse (save_document ops w doc)"
      using loaded recs_ok world by (simp add: sd)
    ultimately show ?thesis by blast
  next
    case (Some t)
    obtain pre root post where t: "t = (pre, root, post)" by (cases t)
    have f: "FirstChildElement ''world'' doc = Some (pre, root, post)" using Some t by simp
    from FirstChildElement_Some [OF f]
    have d: "doc = pre @ root # post" and e: "is_element root" "Value root = ''world''"
      and pn: "FirstChildElement ''world'' pre = None"
      by auto
    from element_named [OF e] obtain a old where r: "root = Element ''world'' a old" by blast
    have sd: "save_document ops w doc = pre @ Element ''world'' a ?recs # post"
      by (simp add: save_document_def f r insert_entities_eq)
    have attrs: "list_all (\<lambda>kv. XML_name (fst kv)) a"
      and pre_ok: "list_all names_parse pre" and post_ok: "list_all names_parse post"
      using loaded by (simp_all add: d r)
    have ok: "list_all names_parse (save_document ops w doc)"
      using attrs pre_ok post_ok recs_ok world by (simp add: sd)
    have p: "parsed (Element ''world'' a ?recs) = Element ''world'' a ?recs"
      by (simp only: parsed.simps recs_same)
    have "parsed_document (pre @ Element ''world'' a ?recs # post) =
        parsed_document pre @ parsed (Element ''world'' a ?recs) # parsed_document post"
      by (rule parsed_document_split) simp
    then have pd: "parsed_document (save_document ops w doc) =
        parsed_document pre @ Element ''world'' a ?recs # parsed_document post"
      by (simp only: sd p)
    have "FirstChildElement ''world''
            (parsed_document pre @ Element ''world'' a ?recs # parsed_document post) =
          Some (parsed_document pre, Element ''world'' a ?recs, parsed_document post)"
      by (rule FirstChildElement_found [OF FirstChildElement_parsed_None [OF pn]]) simp_all
    then show ?thesis using ok pd by auto
  qed
qed

section \<open>Saving and loading\<close>

text \<open>
  A field value that is white space only does not come back: the parser skips it, the
  element has no text, and \<^verbatim>\<open>load\<close> builds a \<^verbatim>\<open>std::string\<close> from the null pointer of
  \<^verbatim>\<open>GetText()\<close>. Here a Name of one space is saved over an empty document and loaded.
\<close>

lemma blank_value_faults:
  "load \<lparr>construct = (\<lambda>n. if n = ''Name'' then Some [(''name'', ''?'')] else None),
          serialize = (\<lambda>c. c),
          unserialize = (\<lambda>c m. map (\<lambda>kv. (fst kv, case m (fst kv) of None \<Rightarrow> snd kv | Some v \<Rightarrow> v)) c),
          setTexture = (\<lambda>c. c)\<rparr>
        (\<lambda>c. [])
        \<lparr>textures = {}, scriptsHeld = Map.empty\<rparr>
        (fst (snd (save \<lparr>construct = (\<lambda>n. if n = ''Name'' then Some [(''name'', ''?'')] else None),
                  serialize = (\<lambda>c. c),
                  unserialize = (\<lambda>c m. map (\<lambda>kv. (fst kv, case m (fst kv) of None \<Rightarrow> snd kv | Some v \<Rightarrow> v)) c),
                  setTexture = (\<lambda>c. c)\<rparr>
             \<lparr>content = (\<lambda>p. Document []), writable = (\<lambda>p. True)\<rparr>
             \<lparr>name = ''a'', entities = [[(''Name'', [(''name'', '' '')])]], scripts = []\<rparr>)))
        (World_new ''a'')
     = Inl NullString"
  by (simp add: load_def save_def LoadFile_def SaveFile_def save_file_def World_new_def
      parsed_document_def save_document_def insert_entities_eq entity_element_eq
      component_element_eq variable_element_eq NewElement_def is_space_def
      is_name_start_def is_name_char_def child_elements_named_def child_elements_def
      addEntity_def Entity_add_def Entity_get_def Entity_put_def)

text \<open>
  Claim C1, amended. Let a save document for the world's name already exist, load, and be
  writable. Let every entity hold at most one component per name. Let every component type
  name and field name be a name for the parser, and every field value be text the parser
  hands back as written (not white space only, no carriage return, no NUL). Let every
  component satisfy the component contract: its name can be constructed by
  \<^verbatim>\<open>Entity::add\<close>, a Drawable read back names a texture the asset manager holds, and
  unserializing its fields into the newly constructed component (followed by the texture
  fix-up for a Drawable) gives a component with the same serialized fields. Then \<^verbatim>\<open>save\<close>
  returns true, and \<^verbatim>\<open>load\<close> on a fresh world of the same name returns true with as many
  entities, in the same order, each with the same component names and the same field
  values.
\<close>

theorem save_load_round_trip:
  assumes exists: "LoadFile fs (save_file w) = Inr doc"
      and writes: "writable fs (save_file w)"
      and names: "\<forall>e \<in> set (entities w). distinct (map fst e)"
      and fields: "\<forall>e \<in> set (entities w). \<forall>(n, c) \<in> set e.
                     XML_name n \<and> (\<forall>(k, v) \<in> set (serialize ops c). XML_name k \<and> plain_text v)"
      and comps: "\<forall>e \<in> set (entities w). \<forall>(n, c) \<in> set e. \<exists>d. construct ops n = Some d \<and>
                     (n = ''Drawable'' \<longrightarrow>
                        texture (unserialize ops d (map_of (serialize ops c))) \<in> textures assets) \<and>
                     serialize ops ((if n = ''Drawable'' then setTexture ops else id)
                                      (unserialize ops d (map_of (serialize ops c))))
                       = serialize ops c"
  shows "\<exists>fs' w'. save ops fs w = (True, fs', w) \<and>
           load ops texture assets fs' (World_new (name w)) = Inr (True, w') \<and>
           length (entities w') = length (entities w) \<and>
           map (map (\<lambda>(n, c). (n, serialize ops c))) (entities w') =
             map (map (\<lambda>(n, c). (n, serialize ops c))) (entities w)"
proof -
  define fs' where "fs' = snd (SaveFile fs (save_file w) (save_document ops w doc))"
  have s: "save ops fs w = (True, fs', w)" by (simp add: save_def exists fs'_def)
  have p: "save_file (World_new (name w) :: 'a World) = save_file w"
    by (simp add: save_file_def World_new_def)
  have xn: "\<forall>e \<in> set (entities w). \<forall>nc \<in> set e. XML_name (fst nc) \<and>
                    (\<forall>kv \<in> set (serialize ops (snd nc)). XML_name (fst kv))"
    using fields by fastforce
  have pt: "\<forall>e \<in> set (entities w). \<forall>nc \<in> set e.
                    \<forall>kv \<in> set (serialize ops (snd nc)). plain_text (snd kv)"
    using fields by fastforce
  from saved_document_read [OF names_parse_loaded [OF exists] xn pt]
  obtain pre a post where
    v: "list_all names_parse (save_document ops w doc)" and
    r: "FirstChildElement ''world'' (parsed_document (save_document ops w doc)) =
          Some (pre, Element ''world'' a (map (entity_element ops) (entities w)), post)"
    by blast
  have l: "LoadFile fs' (save_file (World_new (name w) :: 'a World)) =
      Inr (parsed_document (save_document ops w doc))"
    using writes v by (simp add: p fs'_def SaveFile_def LoadFile_def)
  have ok: "\<forall>e \<in> set (entities w). distinct (map fst e) \<and>
             (\<forall>nc \<in> set e. component_loads ops texture assets nc)"
  proof (intro ballI conjI)
    fix e assume e: "e \<in> set (entities w)"
    show "distinct (map fst e)" using names e by simp
    fix nc assume nc: "nc \<in> set e"
    obtain n c where eq: "nc = (n, c)" by (cases nc)
    have "\<forall>kv \<in> set (serialize ops c). fst kv \<noteq> [] \<and> snd kv \<noteq> []"
      using xn pt e nc eq by (fastforce dest: XML_name_nonempty plain_text_nonempty)
    moreover have "\<exists>d. construct ops n = Some d \<and>
           (n = ''Drawable'' \<longrightarrow>
              texture (unserialize ops d (map_of (serialize ops c))) \<in> textures assets)"
      using comps e nc eq by fastforce
    ultimately show "component_loads ops texture assets nc"
      by (simp add: component_loads_def eq)
  qed
  define w' where "w' = (World_new (name w) :: 'a World)\<lparr>entities :=
     entities (World_new (name w) :: 'a World) @ map (map (reloaded ops)) (entities w)\<rparr>"
  have ld: "load ops texture assets fs' (World_new (name w)) = Inr (True, w')"
    unfolding w'_def by (rule load_entity_records [OF l r ok])
  have ents: "entities w' = map (map (reloaded ops)) (entities w)"
    by (simp add: w'_def World_new_def)
  have view: "map (\<lambda>(n, c). (n, serialize ops c)) (map (reloaded ops) e) =
              map (\<lambda>(n, c). (n, serialize ops c)) e" if e: "e \<in> set (entities w)" for e
  proof -
    have "(\<lambda>(n, c). (n, serialize ops c)) (reloaded ops nc) = (\<lambda>(n, c). (n, serialize ops c)) nc"
      if nc: "nc \<in> set e" for nc
    proof -
      obtain n c where eq: "nc = (n, c)" by (cases nc)
      obtain d where "construct ops n = Some d" and
        "serialize ops ((if n = ''Drawable'' then setTexture ops else id)
                                      (unserialize ops d (map_of (serialize ops c))))
                       = serialize ops c"
        using comps e nc eq by fastforce
      then show ?thesis by (simp add: reloaded_def eq)
    qed
    then show ?thesis by simp
  qed
  have "map (map (\<lambda>(n, c). (n, serialize ops c))) (entities w') =
             map (map (\<lambda>(n, c). (n, serialize ops c))) (entities w)"
    using view by (simp add: ents)
  moreover have "length (entities w') = length (entities w)" by (simp add: ents)
  ultimately show ?thesis using s ld by blast
qed

text \<open>Claim C1, amended, at a world of two entities, one with a Drawable and a Name
  component and one without components, saved over a document whose root has old
  children.\<close>

theorem save_load_round_trip_witness:
  "let ops = \<lparr>construct = (\<lambda>n. if n = ''Name'' then Some [(''name'', ''?'')]
                               else if n = ''Drawable'' then Some [(''texture'', ''?'')] else None),
              serialize = (\<lambda>c. c),
              unserialize = (\<lambda>c m. map (\<lambda>kv. (fst kv, case m (fst kv) of None \<Rightarrow> snd kv | Some v \<Rightarrow> v)) c),
              setTexture = (\<lambda>c. c)\<rparr>;
       texture = (\<lambda>c. case map_of c ''texture'' of None \<Rightarrow> [] | Some t \<Rightarrow> t);
       assets = \<lparr>textures = {''./data/textures/ship.png''}, scriptsHeld = Map.empty\<rparr>;
       w = \<lparr>name = ''a'',
            entities = [[(''Drawable'', [(''texture'', ''./data/textures/ship.png'')]),
                         (''Name'', [(''name'', ''Lua Entity'')])], []],
            scripts = []\<rparr>;
       fs = \<lparr>content = (\<lambda>p. NotFound)(''./data/saves/a.world'' := Document
                [Misc ''decl'', Element ''world'' [(''v'', ''1'')] [Element ''entity'' [] [], Text ''old''], Misc ''tail'']),
             writable = (\<lambda>p. True)\<rparr>
   in \<exists>fs' w'. save ops fs w = (True, fs', w) \<and>
        load ops texture assets fs' (World_new (name w)) = Inr (True, w') \<and>
        length (entities w') = length (entities w) \<and>
        map (map (\<lambda>(n, c). (n, serialize ops c))) (entities w') =
          map (map (\<lambda>(n, c). (n, serialize ops c))) (entities w)"
  unfolding Let_def
  by (rule save_load_round_trip [where doc =
        "[Misc ''decl'', Element ''world'' [(''v'', ''1'')] [Element ''entity'' [] [], Text ''old''], Misc ''tail'']"])
     (simp_all add: LoadFile_def save_file_def parsed_document_def plain_text_def is_space_def
        is_name_start_def is_name_char_def)

text \<open>
  Claim C1 as stated fails when no save file exists yet: \<^verbatim>\<open>save\<close> returns false without
  writing, \<^verbatim>\<open>load\<close> on a fresh world of the same name returns false, and the fresh world
  has no entity while the saved world has two.
\<close>

theorem save_load_without_file_counterexample:
  "let ops = \<lparr>construct = (\<lambda>n. if n = ''Name'' then Some [(''name'', ''?'')]
                               else if n = ''Drawable'' then Some [(''texture'', ''?'')] else None),
              serialize = (\<lambda>c. c),
              unserialize = (\<lambda>c m. map (\<lambda>kv. (fst kv, case m (fst kv) of None \<Rightarrow> snd kv | Some v \<Rightarrow> v)) c),
              setTexture = (\<lambda>c. c)\<rparr>;
       texture = (\<lambda>c. case map_of c ''texture'' of None \<Rightarrow> [] | Some t \<Rightarrow> t);
       assets = \<lparr>textures = {''./data/textures/ship.png''}, scriptsHeld = Map.empty\<rparr>;
       w = \<lparr>name = ''a'',
            entities = [[(''Drawable'', [(''texture'', ''./data/textures/ship.png'')]),
                         (''Name'', [(''name'', ''Lua Entity'')])], []],
            scripts = []\<rparr>;
       fs = \<lparr>content = (\<lambda>p. NotFound), writable = (\<lambda>p. True)\<rparr>
   in save ops fs w = (False, fs, w) \<and>
      load ops texture assets fs (World_new (name w)) = Inr (False, World_new (name w)) \<and>
      length (entities (World_new (name w) :: (string \<times> string) list World)) = 0 \<and>
      length (entities w) = 2"
  by (simp add: save_def load_def LoadFile_def World_new_def)

end
